theory Spec2Isabelle
  imports Main "HOL-Library.Code_Target_Nat"
begin

section \<open>JavaScript strings\<close>

text \<open>
  A JavaScript string is a sequence of UTF-16 code units; a code unit is modelled as a
  natural number, and so is a code point. \<open>js\<close> reads an ASCII literal as such a
  sequence.
\<close>

type_synonym jsstring = "nat list"

definition js :: "string \<Rightarrow> jsstring" where
  "js s = map of_char s"

text \<open>
  \<^verbatim>\<open>String.prototype.toLowerCase\<close> works on code points: the string is read with
  \<^verbatim>\<open>StringToCodePoints\<close>, where a lead surrogate followed by a trail surrogate is one code
  point and any other surrogate stands for itself, the code points are lower-cased, and
  the result is written back as code units.
\<close>

definition is_lead_surrogate :: "nat \<Rightarrow> bool" where
  "is_lead_surrogate u = (55296 \<le> u \<and> u \<le> 56319)"

definition is_trail_surrogate :: "nat \<Rightarrow> bool" where
  "is_trail_surrogate u = (56320 \<le> u \<and> u \<le> 57343)"

fun StringToCodePoints :: "jsstring \<Rightarrow> nat list" where
  "StringToCodePoints (u # v # rest) =
     (if is_lead_surrogate u \<and> is_trail_surrogate v
      then (65536 + (u - 55296) * 1024 + (v - 56320)) # StringToCodePoints rest
      else u # StringToCodePoints (v # rest))"
| "StringToCodePoints us = us"

definition UTF16EncodeCodePoint :: "nat \<Rightarrow> jsstring" where
  "UTF16EncodeCodePoint cp =
     (if cp \<le> 65535 then [cp]
      else [(cp - 65536) div 1024 + 55296, (cp - 65536) mod 1024 + 56320])"

definition CodePointsToString :: "nat list \<Rightarrow> jsstring" where
  "CodePointsToString cps = concat (map UTF16EncodeCodePoint cps)"

text \<open>
  The case data of Unicode 15.0. \<open>lower_blocks\<close> holds the single-code-point lower-case
  mappings of UnicodeData.txt: an entry \<open>(lo, hi, stride, tgt)\<close> maps the code points
  \<open>lo, lo + stride, ...\<close> up to \<open>hi\<close> to \<open>tgt, tgt + stride, ...\<close>; the entries are in
  ascending order and do not overlap, and are grouped into blocks, each with the last code
  point it is responsible for, so that a lookup reads one block only. \<open>lower_table\<close> is
  the table without the grouping. \<open>cased_ranges\<close> and \<open>case_ignorable_ranges\<close>
  are the properties Cased and Case_Ignorable of DerivedCoreProperties.txt, as inclusive
  ranges in ascending order.
\<close>

type_synonym case_entry = "nat \<times> nat \<times> nat \<times> nat"

definition lower_blocks :: "(nat \<times> case_entry list) list" where
  "lower_blocks =
    [(392,
      [(65, 90, 1, 97), (192, 214, 1, 224), (216, 222, 1, 248), (256, 302, 2, 257),
       (306, 310, 2, 307), (313, 327, 2, 314), (330, 374, 2, 331), (376, 376, 1, 255),
       (377, 381, 2, 378), (385, 385, 1, 595), (386, 388, 2, 387), (390, 390, 1, 596),
       (391, 391, 1, 392)]),
     (414,
      [(393, 394, 1, 598), (395, 395, 1, 396), (398, 398, 1, 477), (399, 399, 1, 601),
       (400, 400, 1, 603), (401, 401, 1, 402), (403, 403, 1, 608), (404, 404, 1, 611),
       (406, 406, 1, 617), (407, 407, 1, 616), (408, 408, 1, 409), (412, 412, 1, 623),
       (413, 413, 1, 626)]),
     (451,
      [(415, 415, 1, 629), (416, 420, 2, 417), (422, 422, 1, 640), (423, 423, 1, 424),
       (425, 425, 1, 643), (428, 428, 1, 429), (430, 430, 1, 648), (431, 431, 1, 432),
       (433, 434, 1, 650), (435, 437, 2, 436), (439, 439, 1, 658), (440, 440, 1, 441),
       (444, 444, 1, 445)]),
     (545,
      [(452, 452, 1, 454), (453, 453, 1, 454), (455, 455, 1, 457), (456, 456, 1, 457),
       (458, 458, 1, 460), (459, 475, 2, 460), (478, 494, 2, 479), (497, 497, 1, 499),
       (498, 500, 2, 499), (502, 502, 1, 405), (503, 503, 1, 447), (504, 542, 2, 505),
       (544, 544, 1, 414)]),
     (901,
      [(546, 562, 2, 547), (570, 570, 1, 11365), (571, 571, 1, 572), (573, 573, 1, 410),
       (574, 574, 1, 11366), (577, 577, 1, 578), (579, 579, 1, 384), (580, 580, 1, 649),
       (581, 581, 1, 652), (582, 590, 2, 583), (880, 882, 2, 881), (886, 886, 1, 887),
       (895, 895, 1, 1011)]),
     (1023,
      [(902, 902, 1, 940), (904, 906, 1, 941), (908, 908, 1, 972), (910, 911, 1, 973),
       (913, 929, 1, 945), (931, 939, 1, 963), (975, 975, 1, 983), (984, 1006, 2, 985),
       (1012, 1012, 1, 952), (1015, 1015, 1, 1016), (1017, 1017, 1, 1010),
       (1018, 1018, 1, 1019), (1021, 1023, 1, 891)]),
     (7311,
      [(1024, 1039, 1, 1104), (1040, 1071, 1, 1072), (1120, 1152, 2, 1121),
       (1162, 1214, 2, 1163), (1216, 1216, 1, 1231), (1217, 1229, 2, 1218),
       (1232, 1326, 2, 1233), (1329, 1366, 1, 1377), (4256, 4293, 1, 11520),
       (4295, 4295, 1, 11559), (4301, 4301, 1, 11565), (5024, 5103, 1, 43888),
       (5104, 5109, 1, 5112)]),
     (8087,
      [(7312, 7354, 1, 4304), (7357, 7359, 1, 4349), (7680, 7828, 2, 7681),
       (7838, 7838, 1, 223), (7840, 7934, 2, 7841), (7944, 7951, 1, 7936),
       (7960, 7965, 1, 7952), (7976, 7983, 1, 7968), (7992, 7999, 1, 7984),
       (8008, 8013, 1, 8000), (8025, 8031, 2, 8017), (8040, 8047, 1, 8032),
       (8072, 8079, 1, 8064)]),
     (8185,
      [(8088, 8095, 1, 8080), (8104, 8111, 1, 8096), (8120, 8121, 1, 8112),
       (8122, 8123, 1, 8048), (8124, 8124, 1, 8115), (8136, 8139, 1, 8050),
       (8140, 8140, 1, 8131), (8152, 8153, 1, 8144), (8154, 8155, 1, 8054),
       (8168, 8169, 1, 8160), (8170, 8171, 1, 8058), (8172, 8172, 1, 8165),
       (8184, 8185, 1, 8056)]),
     (11363,
      [(8186, 8187, 1, 8060), (8188, 8188, 1, 8179), (8486, 8486, 1, 969),
       (8490, 8490, 1, 107), (8491, 8491, 1, 229), (8498, 8498, 1, 8526),
       (8544, 8559, 1, 8560), (8579, 8579, 1, 8580), (9398, 9423, 1, 9424),
       (11264, 11311, 1, 11312), (11360, 11360, 1, 11361), (11362, 11362, 1, 619),
       (11363, 11363, 1, 7549)]),
     (42623,
      [(11364, 11364, 1, 637), (11367, 11371, 2, 11368), (11373, 11373, 1, 593),
       (11374, 11374, 1, 625), (11375, 11375, 1, 592), (11376, 11376, 1, 594),
       (11378, 11378, 1, 11379), (11381, 11381, 1, 11382), (11390, 11391, 1, 575),
       (11392, 11490, 2, 11393), (11499, 11501, 2, 11500), (11506, 11506, 1, 11507),
       (42560, 42604, 2, 42561)]),
     (42924,
      [(42624, 42650, 2, 42625), (42786, 42798, 2, 42787), (42802, 42862, 2, 42803),
       (42873, 42875, 2, 42874), (42877, 42877, 1, 7545), (42878, 42886, 2, 42879),
       (42891, 42891, 1, 42892), (42893, 42893, 1, 613), (42896, 42898, 2, 42897),
       (42902, 42920, 2, 42903), (42922, 42922, 1, 614), (42923, 42923, 1, 604),
       (42924, 42924, 1, 609)]),
     (42996,
      [(42925, 42925, 1, 620), (42926, 42926, 1, 618), (42928, 42928, 1, 670),
       (42929, 42929, 1, 647), (42930, 42930, 1, 669), (42931, 42931, 1, 43859),
       (42932, 42946, 2, 42933), (42948, 42948, 1, 42900), (42949, 42949, 1, 642),
       (42950, 42950, 1, 7566), (42951, 42953, 2, 42952), (42960, 42960, 1, 42961),
       (42966, 42968, 2, 42967)]),
     (1114111,
      [(42997, 42997, 1, 42998), (65313, 65338, 1, 65345), (66560, 66599, 1, 66600),
       (66736, 66771, 1, 66776), (66928, 66938, 1, 66967), (66940, 66954, 1, 66979),
       (66956, 66962, 1, 66995), (66964, 66965, 1, 67003), (68736, 68786, 1, 68800),
       (71840, 71871, 1, 71872), (93760, 93791, 1, 93792), (125184, 125217, 1, 125218)])]"

definition lower_table :: "case_entry list" where
  "lower_table = concat (map snd lower_blocks)"

definition cased_ranges :: "(nat \<times> nat) list" where
  "cased_ranges =
    [(65, 90), (97, 122), (170, 170), (181, 181), (186, 186), (192, 214), (216, 246),
     (248, 442), (444, 447), (452, 659), (661, 696), (704, 705), (736, 740), (837, 837),
     (880, 883), (886, 887), (890, 893), (895, 895), (902, 902), (904, 906), (908, 908),
     (910, 929), (931, 1013), (1015, 1153), (1162, 1327), (1329, 1366), (1376, 1416),
     (4256, 4293), (4295, 4295), (4301, 4301), (4304, 4346), (4348, 4351), (5024, 5109),
     (5112, 5117), (7296, 7304), (7312, 7354), (7357, 7359), (7424, 7615), (7680, 7957),
     (7960, 7965), (7968, 8005), (8008, 8013), (8016, 8023), (8025, 8025), (8027, 8027),
     (8029, 8029), (8031, 8061), (8064, 8116), (8118, 8124), (8126, 8126), (8130, 8132),
     (8134, 8140), (8144, 8147), (8150, 8155), (8160, 8172), (8178, 8180), (8182, 8188),
     (8305, 8305), (8319, 8319), (8336, 8348), (8450, 8450), (8455, 8455), (8458, 8467),
     (8469, 8469), (8473, 8477), (8484, 8484), (8486, 8486), (8488, 8488), (8490, 8493),
     (8495, 8500), (8505, 8505), (8508, 8511), (8517, 8521), (8526, 8526), (8544, 8575),
     (8579, 8580), (9398, 9449), (11264, 11492), (11499, 11502), (11506, 11507),
     (11520, 11557), (11559, 11559), (11565, 11565), (42560, 42605), (42624, 42653),
     (42786, 42887), (42891, 42894), (42896, 42954), (42960, 42961), (42963, 42963),
     (42965, 42969), (42994, 42998), (43000, 43002), (43824, 43866), (43868, 43881),
     (43888, 43967), (64256, 64262), (64275, 64279), (65313, 65338), (65345, 65370),
     (66560, 66639), (66736, 66771), (66776, 66811), (66928, 66938), (66940, 66954),
     (66956, 66962), (66964, 66965), (66967, 66977), (66979, 66993), (66995, 67001),
     (67003, 67004), (67456, 67456), (67459, 67461), (67463, 67504), (67506, 67514),
     (68736, 68786), (68800, 68850), (71840, 71903), (93760, 93823), (119808, 119892),
     (119894, 119964), (119966, 119967), (119970, 119970), (119973, 119974), (119977, 119980),
     (119982, 119993), (119995, 119995), (119997, 120003), (120005, 120069), (120071, 120074),
     (120077, 120084), (120086, 120092), (120094, 120121), (120123, 120126), (120128, 120132),
     (120134, 120134), (120138, 120144), (120146, 120485), (120488, 120512), (120514, 120538),
     (120540, 120570), (120572, 120596), (120598, 120628), (120630, 120654), (120656, 120686),
     (120688, 120712), (120714, 120744), (120746, 120770), (120772, 120779), (122624, 122633),
     (122635, 122654), (122661, 122666), (122928, 122989), (125184, 125251), (127280, 127305),
     (127312, 127337), (127344, 127369)]"

definition case_ignorable_ranges :: "(nat \<times> nat) list" where
  "case_ignorable_ranges =
    [(39, 39), (46, 46), (58, 58), (94, 94), (96, 96), (168, 168), (173, 173), (175, 175),
     (180, 180), (183, 184), (688, 879), (884, 885), (890, 890), (900, 901), (903, 903),
     (1155, 1161), (1369, 1369), (1375, 1375), (1425, 1469), (1471, 1471), (1473, 1474),
     (1476, 1477), (1479, 1479), (1524, 1524), (1536, 1541), (1552, 1562), (1564, 1564),
     (1600, 1600), (1611, 1631), (1648, 1648), (1750, 1757), (1759, 1768), (1770, 1773),
     (1807, 1807), (1809, 1809), (1840, 1866), (1958, 1968), (2027, 2037), (2042, 2042),
     (2045, 2045), (2070, 2093), (2137, 2139), (2184, 2184), (2192, 2193), (2200, 2207),
     (2249, 2306), (2362, 2362), (2364, 2364), (2369, 2376), (2381, 2381), (2385, 2391),
     (2402, 2403), (2417, 2417), (2433, 2433), (2492, 2492), (2497, 2500), (2509, 2509),
     (2530, 2531), (2558, 2558), (2561, 2562), (2620, 2620), (2625, 2626), (2631, 2632),
     (2635, 2637), (2641, 2641), (2672, 2673), (2677, 2677), (2689, 2690), (2748, 2748),
     (2753, 2757), (2759, 2760), (2765, 2765), (2786, 2787), (2810, 2815), (2817, 2817),
     (2876, 2876), (2879, 2879), (2881, 2884), (2893, 2893), (2901, 2902), (2914, 2915),
     (2946, 2946), (3008, 3008), (3021, 3021), (3072, 3072), (3076, 3076), (3132, 3132),
     (3134, 3136), (3142, 3144), (3146, 3149), (3157, 3158), (3170, 3171), (3201, 3201),
     (3260, 3260), (3263, 3263), (3270, 3270), (3276, 3277), (3298, 3299), (3328, 3329),
     (3387, 3388), (3393, 3396), (3405, 3405), (3426, 3427), (3457, 3457), (3530, 3530),
     (3538, 3540), (3542, 3542), (3633, 3633), (3636, 3642), (3654, 3662), (3761, 3761),
     (3764, 3772), (3782, 3782), (3784, 3790), (3864, 3865), (3893, 3893), (3895, 3895),
     (3897, 3897), (3953, 3966), (3968, 3972), (3974, 3975), (3981, 3991), (3993, 4028),
     (4038, 4038), (4141, 4144), (4146, 4151), (4153, 4154), (4157, 4158), (4184, 4185),
     (4190, 4192), (4209, 4212), (4226, 4226), (4229, 4230), (4237, 4237), (4253, 4253),
     (4348, 4348), (4957, 4959), (5906, 5908), (5938, 5939), (5970, 5971), (6002, 6003),
     (6068, 6069), (6071, 6077), (6086, 6086), (6089, 6099), (6103, 6103), (6109, 6109),
     (6155, 6159), (6211, 6211), (6277, 6278), (6313, 6313), (6432, 6434), (6439, 6440),
     (6450, 6450), (6457, 6459), (6679, 6680), (6683, 6683), (6742, 6742), (6744, 6750),
     (6752, 6752), (6754, 6754), (6757, 6764), (6771, 6780), (6783, 6783), (6823, 6823),
     (6832, 6862), (6912, 6915), (6964, 6964), (6966, 6970), (6972, 6972), (6978, 6978),
     (7019, 7027), (7040, 7041), (7074, 7077), (7080, 7081), (7083, 7085), (7142, 7142),
     (7144, 7145), (7149, 7149), (7151, 7153), (7212, 7219), (7222, 7223), (7288, 7293),
     (7376, 7378), (7380, 7392), (7394, 7400), (7405, 7405), (7412, 7412), (7416, 7417),
     (7468, 7530), (7544, 7544), (7579, 7679), (8125, 8125), (8127, 8129), (8141, 8143),
     (8157, 8159), (8173, 8175), (8189, 8190), (8203, 8207), (8216, 8217), (8228, 8228),
     (8231, 8231), (8234, 8238), (8288, 8292), (8294, 8303), (8305, 8305), (8319, 8319),
     (8336, 8348), (8400, 8432), (11388, 11389), (11503, 11505), (11631, 11631),
     (11647, 11647), (11744, 11775), (11823, 11823), (12293, 12293), (12330, 12333),
     (12337, 12341), (12347, 12347), (12441, 12446), (12540, 12542), (40981, 40981),
     (42232, 42237), (42508, 42508), (42607, 42610), (42612, 42621), (42623, 42623),
     (42652, 42655), (42736, 42737), (42752, 42785), (42864, 42864), (42888, 42890),
     (42994, 42996), (43000, 43001), (43010, 43010), (43014, 43014), (43019, 43019),
     (43045, 43046), (43052, 43052), (43204, 43205), (43232, 43249), (43263, 43263),
     (43302, 43309), (43335, 43345), (43392, 43394), (43443, 43443), (43446, 43449),
     (43452, 43453), (43471, 43471), (43493, 43494), (43561, 43566), (43569, 43570),
     (43573, 43574), (43587, 43587), (43596, 43596), (43632, 43632), (43644, 43644),
     (43696, 43696), (43698, 43700), (43703, 43704), (43710, 43711), (43713, 43713),
     (43741, 43741), (43756, 43757), (43763, 43764), (43766, 43766), (43867, 43871),
     (43881, 43883), (44005, 44005), (44008, 44008), (44013, 44013), (64286, 64286),
     (64434, 64450), (65024, 65039), (65043, 65043), (65056, 65071), (65106, 65106),
     (65109, 65109), (65279, 65279), (65287, 65287), (65294, 65294), (65306, 65306),
     (65342, 65342), (65344, 65344), (65392, 65392), (65438, 65439), (65507, 65507),
     (65529, 65531), (66045, 66045), (66272, 66272), (66422, 66426), (67456, 67461),
     (67463, 67504), (67506, 67514), (68097, 68099), (68101, 68102), (68108, 68111),
     (68152, 68154), (68159, 68159), (68325, 68326), (68900, 68903), (69291, 69292),
     (69373, 69375), (69446, 69456), (69506, 69509), (69633, 69633), (69688, 69702),
     (69744, 69744), (69747, 69748), (69759, 69761), (69811, 69814), (69817, 69818),
     (69821, 69821), (69826, 69826), (69837, 69837), (69888, 69890), (69927, 69931),
     (69933, 69940), (70003, 70003), (70016, 70017), (70070, 70078), (70089, 70092),
     (70095, 70095), (70191, 70193), (70196, 70196), (70198, 70199), (70206, 70206),
     (70209, 70209), (70367, 70367), (70371, 70378), (70400, 70401), (70459, 70460),
     (70464, 70464), (70502, 70508), (70512, 70516), (70712, 70719), (70722, 70724),
     (70726, 70726), (70750, 70750), (70835, 70840), (70842, 70842), (70847, 70848),
     (70850, 70851), (71090, 71093), (71100, 71101), (71103, 71104), (71132, 71133),
     (71219, 71226), (71229, 71229), (71231, 71232), (71339, 71339), (71341, 71341),
     (71344, 71349), (71351, 71351), (71453, 71455), (71458, 71461), (71463, 71467),
     (71727, 71735), (71737, 71738), (71995, 71996), (71998, 71998), (72003, 72003),
     (72148, 72151), (72154, 72155), (72160, 72160), (72193, 72202), (72243, 72248),
     (72251, 72254), (72263, 72263), (72273, 72278), (72281, 72283), (72330, 72342),
     (72344, 72345), (72752, 72758), (72760, 72765), (72767, 72767), (72850, 72871),
     (72874, 72880), (72882, 72883), (72885, 72886), (73009, 73014), (73018, 73018),
     (73020, 73021), (73023, 73029), (73031, 73031), (73104, 73105), (73109, 73109),
     (73111, 73111), (73459, 73460), (73472, 73473), (73526, 73530), (73536, 73536),
     (73538, 73538), (78896, 78912), (78919, 78933), (92912, 92916), (92976, 92982),
     (92992, 92995), (94031, 94031), (94095, 94111), (94176, 94177), (94179, 94180),
     (110576, 110579), (110581, 110587), (110589, 110590), (113821, 113822), (113824, 113827),
     (118528, 118573), (118576, 118598), (119143, 119145), (119155, 119170), (119173, 119179),
     (119210, 119213), (119362, 119364), (121344, 121398), (121403, 121452), (121461, 121461),
     (121476, 121476), (121499, 121503), (121505, 121519), (122880, 122886), (122888, 122904),
     (122907, 122913), (122915, 122916), (122918, 122922), (122928, 122989), (123023, 123023),
     (123184, 123197), (123566, 123566), (123628, 123631), (124139, 124143), (125136, 125142),
     (125252, 125259), (127995, 127999), (917505, 917505), (917536, 917631), (917760, 917999)]"

fun table_lower :: "case_entry list \<Rightarrow> nat \<Rightarrow> nat" where
  "table_lower [] c = c"
| "table_lower ((lo, hi, stride, tgt) # rest) c =
     (if c < lo then c
      else if c \<le> hi \<and> (c - lo) mod stride = 0 then tgt + (c - lo)
      else table_lower rest c)"

fun block_lower :: "(nat \<times> case_entry list) list \<Rightarrow> nat \<Rightarrow> nat" where
  "block_lower [] c = c"
| "block_lower ((limit, entries) # rest) c =
     (if c \<le> limit then table_lower entries c else block_lower rest c)"

definition simple_lower :: "nat \<Rightarrow> nat" where
  "simple_lower c = block_lower lower_blocks c"

text \<open>
  The two mappings of SpecialCasing.txt that do not depend on the language. U+0130 becomes
  U+0069 U+0307. U+03A3 becomes U+03C2 when it is final and U+03C3 otherwise: it is final
  when, skipping case-ignorable code points, a cased one comes before it and none comes
  after it. A code point that is both cased and case-ignorable is skipped, as the engines
  do. \<open>before\<close> holds the code points already passed, the nearest first.
\<close>

fun in_ranges :: "(nat \<times> nat) list \<Rightarrow> nat \<Rightarrow> bool" where
  "in_ranges [] c = False"
| "in_ranges ((lo, hi) # rest) c =
     (if c < lo then False else if c \<le> hi then True else in_ranges rest c)"

definition Cased :: "nat \<Rightarrow> bool" where
  "Cased c = in_ranges cased_ranges c"

definition Case_Ignorable :: "nat \<Rightarrow> bool" where
  "Case_Ignorable c = in_ranges case_ignorable_ranges c"

definition Final_Sigma :: "nat list \<Rightarrow> nat list \<Rightarrow> bool" where
  "Final_Sigma before after =
     ((case dropWhile Case_Ignorable before of [] \<Rightarrow> False | c # _ \<Rightarrow> Cased c)
      \<and> (case dropWhile Case_Ignorable after of [] \<Rightarrow> True | c # _ \<Rightarrow> \<not> Cased c))"

fun lower_code_points :: "nat list \<Rightarrow> nat list \<Rightarrow> nat list" where
  "lower_code_points before [] = []"
| "lower_code_points before (c # after) =
     (if c = 931 then (if Final_Sigma before after then [962] else [963])
      else if c = 304 then [105, 775]
      else [simple_lower c])
     @ lower_code_points (c # before) after"

definition toLowerCase :: "jsstring \<Rightarrow> jsstring" where
  "toLowerCase s = CodePointsToString (lower_code_points [] (StringToCodePoints s))"

text \<open>
  What the proof of idempotence uses. The image of a table entry; whether an entry maps a
  code point; a test that no image of one entry is mapped by another (the ranges are
  apart, or the entry has one code point and it is not mapped, or the images miss the
  other entry's stride); a test that the images are scalar values other than U+0130 and
  U+03A3. A scalar value is a code point that is not a surrogate; a string is well formed
  when every surrogate in it is paired, so that it reads as scalar values only.
\<close>

definition entry_image :: "case_entry \<Rightarrow> nat list" where
  "entry_image e =
     (case e of (lo, hi, stride, tgt) \<Rightarrow> map (\<lambda>k. tgt + k * stride) [0 ..< (hi - lo) div stride + 1])"

fun hits :: "case_entry \<Rightarrow> nat \<Rightarrow> bool" where
  "hits (lo, hi, stride, tgt) c = (lo \<le> c \<and> c \<le> hi \<and> (c - lo) mod stride = 0)"

fun image_clear :: "case_entry \<Rightarrow> case_entry \<Rightarrow> bool" where
  "image_clear (lo, hi, stride, tgt) (lo', hi', stride', tgt') =
     (if tgt + (hi - lo) < lo' then True
      else if hi' < tgt then True
      else if lo = hi then \<not> hits (lo', hi', stride', tgt') tgt
      else stride mod stride' = 0 \<and> tgt mod stride' \<noteq> lo' mod stride')"

fun image_plain :: "case_entry \<Rightarrow> bool" where
  "image_plain (lo, hi, stride, tgt) =
     ((tgt + (hi - lo) < 55296 \<or> (57343 < tgt \<and> tgt + (hi - lo) < 1114112))
      \<and> (tgt + (hi - lo) < 931 \<or> 931 < tgt)
      \<and> (tgt + (hi - lo) < 304 \<or> 304 < tgt))"

definition table_closed :: "case_entry list \<Rightarrow> bool" where
  "table_closed tbl = list_all (\<lambda>e. image_plain e \<and> list_all (image_clear e) tbl) tbl"

definition scalar_value :: "nat \<Rightarrow> bool" where
  "scalar_value c = (c < 1114112 \<and> \<not> (55296 \<le> c \<and> c \<le> 57343))"

definition lower_stable :: "nat \<Rightarrow> bool" where
  "lower_stable c = (scalar_value c \<and> c \<noteq> 931 \<and> c \<noteq> 304 \<and> simple_lower c = c)"

definition well_formed :: "jsstring \<Rightarrow> bool" where
  "well_formed s = list_all scalar_value (StringToCodePoints s)"

text \<open>The character class \<^verbatim>\<open>[.,!?;:]\<close> of \<^verbatim>\<open>_normalizeText\<close>.\<close>

definition is_punct :: "nat \<Rightarrow> bool" where
  "is_punct c = (c \<in> {46, 44, 33, 63, 59, 58})"

text \<open>
  White space as \<^verbatim>\<open>trim\<close> and the regular expression class \<^verbatim>\<open>\s\<close> both see it:
  TAB, LF, VT, FF, CR, SPACE, NBSP, U+1680, U+2000 to U+200A, LS, PS, U+202F, U+205F,
  U+3000 and U+FEFF.
\<close>

definition is_space :: "nat \<Rightarrow> bool" where
  "is_space c =
     (c \<in> {9, 10, 11, 12, 13, 32, 160, 5760, 8232, 8233, 8239, 8287, 12288, 65279}
      \<or> (8192 \<le> c \<and> c \<le> 8202))"

definition trim :: "jsstring \<Rightarrow> jsstring" where
  "trim s = rev (dropWhile is_space (rev (dropWhile is_space s)))"

text \<open>
  \<^verbatim>\<open>text.split(/\s+/)\<close>: the pieces between maximal runs of white space. A run at the start
  or at the end leaves an empty piece there, and the empty string splits into one empty
  piece. The flag says whether the scan is inside a run of white space.
\<close>

fun split_run :: "bool \<Rightarrow> jsstring \<Rightarrow> jsstring \<Rightarrow> jsstring list" where
  "split_run inrun cur [] = [cur]"
| "split_run inrun cur (c # cs) =
     (if is_space c
      then (if inrun then split_run True cur cs else cur # split_run True [] cs)
      else split_run False (cur @ [c]) cs)"

definition split_ws :: "jsstring \<Rightarrow> jsstring list" where
  "split_ws s = split_run False [] s"

text \<open>\<^verbatim>\<open>normalizedText.split(/\s+/).filter(word => word.length > 0)\<close>\<close>

definition split_words :: "jsstring \<Rightarrow> jsstring list" where
  "split_words s = filter (\<lambda>w. length w > 0) (split_ws s)"

section \<open>JavaScript objects used as dictionaries, and Sets\<close>

text \<open>
  \<^verbatim>\<open>vocab\<close> and \<^verbatim>\<open>simpleResponses\<close> are plain objects whose prototype is
  \<^verbatim>\<open>Object.prototype\<close>. An object is the list of its own properties in property order:
  array-index keys first, in ascending numeric order, then the other keys in the order of
  their creation.
\<close>

type_synonym 'v jsobject = "(jsstring \<times> 'v) list"

definition hasOwnProperty :: "'v jsobject \<Rightarrow> jsstring \<Rightarrow> bool" where
  "hasOwnProperty obj k = (k \<in> set (map fst obj))"

definition object_keys :: "'v jsobject \<Rightarrow> jsstring list" where
  "object_keys obj = map fst obj"

definition is_digit :: "nat \<Rightarrow> bool" where
  "is_digit c = (48 \<le> c \<and> c \<le> 57)"

definition digits_value :: "jsstring \<Rightarrow> nat" where
  "digits_value k = foldl (\<lambda>a c. 10 * a + (c - 48)) 0 k"

text \<open>A key is an array index when it is the canonical decimal form of an integer below \<open>2^32 - 1\<close>.\<close>

definition array_index :: "jsstring \<Rightarrow> nat option" where
  "array_index k =
     (if k \<noteq> [] \<and> list_all is_digit k \<and> (hd k \<noteq> 48 \<or> length k = 1)
         \<and> digits_value k < 4294967295
      then Some (digits_value k) else None)"

fun insert_index :: "nat \<Rightarrow> jsstring \<Rightarrow> 'v \<Rightarrow> 'v jsobject \<Rightarrow> 'v jsobject" where
  "insert_index n k v [] = [(k, v)]"
| "insert_index n k v ((k', v') # rest) =
     (case array_index k' of
        Some m \<Rightarrow> if m < n then (k', v') # insert_index n k v rest
                  else (k, v) # (k', v') # rest
      | None \<Rightarrow> (k, v) # (k', v') # rest)"

text \<open>Creating an own property under a key the object does not have yet.\<close>

definition define_own :: "'v jsobject \<Rightarrow> jsstring \<Rightarrow> 'v \<Rightarrow> 'v jsobject" where
  "define_own obj k v =
     (case array_index k of
        None \<Rightarrow> obj @ [(k, v)]
      | Some n \<Rightarrow> insert_index n k v obj)"

text \<open>
  The assignment \<^verbatim>\<open>obj[k] = v\<close> where \<open>v\<close> is a string or a number. An own property is
  overwritten in place. Otherwise the key \<^verbatim>\<open>__proto__\<close> reaches the accessor of
  \<^verbatim>\<open>Object.prototype\<close>, whose setter ignores a value that is neither an object nor null:
  nothing is stored. Every other key becomes a new own property.
\<close>

definition obj_set :: "'v jsobject \<Rightarrow> jsstring \<Rightarrow> 'v \<Rightarrow> 'v jsobject" where
  "obj_set obj k v =
     (if hasOwnProperty obj k
      then map (\<lambda>(k', v'). if k' = k then (k', v) else (k', v')) obj
      else if k = js ''__proto__'' then obj
      else define_own obj k v)"

text \<open>
  The read \<^verbatim>\<open>obj[k]\<close>: the own property if there is one, else what
  \<^verbatim>\<open>Object.prototype\<close> has under that name (an object or a function, named here by its
  key), else \<^verbatim>\<open>undefined\<close>.
\<close>

datatype 'v jsvalue = Val 'v | Inherited jsstring | Undefined

definition object_prototype_names :: "jsstring list" where
  "object_prototype_names =
     [js ''constructor'', js ''__defineGetter__'', js ''__defineSetter__'',
      js ''hasOwnProperty'', js ''__lookupGetter__'', js ''__lookupSetter__'',
      js ''isPrototypeOf'', js ''propertyIsEnumerable'', js ''toString'', js ''valueOf'',
      js ''__proto__'', js ''toLocaleString'']"

definition obj_get :: "'v jsobject \<Rightarrow> jsstring \<Rightarrow> 'v jsvalue" where
  "obj_get obj k =
     (case map_of obj k of
        Some v \<Rightarrow> Val v
      | None \<Rightarrow> if k \<in> set object_prototype_names then Inherited k else Undefined)"

text \<open>A \<^verbatim>\<open>Set\<close> of strings is the list of its elements in insertion order.\<close>

type_synonym jsset = "jsstring list"

definition Set_has :: "jsset \<Rightarrow> jsstring \<Rightarrow> bool" where
  "Set_has s x = (x \<in> set s)"

definition Set_add :: "jsset \<Rightarrow> jsstring \<Rightarrow> jsset" where
  "Set_add s x = (if x \<in> set s then s else s @ [x])"

definition new_Set :: "jsstring list \<Rightarrow> jsset" where
  "new_Set arr = foldl Set_add [] arr"

definition Array_from :: "jsset \<Rightarrow> jsstring list" where
  "Array_from s = s"

section \<open>The gatekeeper and its brain\<close>

record mem =
  input :: jsstring
  category :: jsstring

record brain =
  vocab :: "nat jsobject"
  simpleVocab :: jsset
  simpleNgrams :: jsset
  categories :: "jsstring list"
  simpleResponses :: "jsstring jsobject"
  memory :: "mem list"

record gatekeeper =
  brain :: brain
  isInitialized :: bool

text \<open>
  What \<^verbatim>\<open>_saveBrain\<close> hands to \<^verbatim>\<open>JSON.stringify\<close> and what \<^verbatim>\<open>JSON.parse\<close> hands back
  to \<^verbatim>\<open>init\<close>: the brain with its two Sets as arrays. A record written by the earlier
  version of the gatekeeper has no \<^verbatim>\<open>simpleNgrams\<close> field, so the two array fields are
  optional. The JSON text itself is not modelled: it is determined by this value.
\<close>

record stored_brain =
  s_vocab :: "nat jsobject"
  s_simpleVocab :: "jsstring list option"
  s_simpleNgrams :: "jsstring list option"
  s_categories :: "jsstring list"
  s_simpleResponses :: "jsstring jsobject"
  s_memory :: "mem list"

text \<open>The program state: the gatekeeper object and the slot of \<^verbatim>\<open>localStorage\<close> it owns.\<close>

record world =
  gk :: gatekeeper
  localStorage :: "stored_brain option"

text \<open>The object literal the script starts from.\<close>

definition gatekeeper0 :: gatekeeper where
  "gatekeeper0 =
     \<lparr>brain = \<lparr>vocab = [], simpleVocab = [], simpleNgrams = [],
               categories = [js ''simple'', js ''complex''],
               simpleResponses = [], memory = []\<rparr>,
      isInitialized = False\<rparr>"

definition normalizeText :: "jsstring \<Rightarrow> jsstring" where
  "normalizeText t = trim (filter (\<lambda>c. \<not> is_punct c) (toLowerCase t))"

definition updateVocab_word :: "nat jsobject \<Rightarrow> jsstring \<Rightarrow> nat jsobject" where
  "updateVocab_word v word =
     (if word \<noteq> [] \<and> \<not> hasOwnProperty v word
      then obj_set v word (length (object_keys v)) else v)"

definition updateVocab :: "brain \<Rightarrow> jsstring \<Rightarrow> brain" where
  "updateVocab b t = b\<lparr>vocab := foldl updateVocab_word (vocab b) (split_ws t)\<rparr>"

definition saveBrain :: "world \<Rightarrow> world" where
  "saveBrain w =
     w\<lparr>localStorage := Some
        \<lparr>s_vocab = vocab (brain (gk w)),
         s_simpleVocab = Some (Array_from (simpleVocab (brain (gk w)))),
         s_simpleNgrams = Some (Array_from (simpleNgrams (brain (gk w)))),
         s_categories = categories (brain (gk w)),
         s_simpleResponses = simpleResponses (brain (gk w)),
         s_memory = memory (brain (gk w))\<rparr>\<rparr>"

text \<open>
  The loop \<^verbatim>\<open>for (let i = 0; i < words.length - 1; i++)\<close> of \<^verbatim>\<open>classify\<close>: \<open>Some\<close> is the
  early return, \<open>None\<close> is falling out of the loop. With no words the bound is -1 in the
  source and 0 here, and the body is skipped either way; inside the loop both indices are
  in range.
\<close>

definition bigram :: "jsstring list \<Rightarrow> nat \<Rightarrow> jsstring" where
  "bigram ws i = (ws ! i) @ [32] @ (ws ! (i + 1))"

function bigram_check :: "jsset \<Rightarrow> jsstring list \<Rightarrow> nat \<Rightarrow> jsstring option" where
  "bigram_check ngrams ws i =
     (if i < length ws - 1
      then (if \<not> Set_has ngrams (bigram ws i) then Some (js ''complex'')
            else bigram_check ngrams ws (i + 1))
      else None)"
  by pat_completeness auto
termination
  by (relation "measure (\<lambda>(ngrams, ws, i). length ws - 1 - i)") auto

text \<open>The loop \<^verbatim>\<open>for (const word of words)\<close> of \<^verbatim>\<open>classify\<close>.\<close>

fun word_check :: "jsset \<Rightarrow> jsstring list \<Rightarrow> jsstring option" where
  "word_check sv [] = None"
| "word_check sv (word # rest) =
     (if \<not> Set_has sv word then Some (js ''complex'') else word_check sv rest)"

definition classify :: "gatekeeper \<Rightarrow> jsstring \<Rightarrow> jsstring" where
  "classify g t =
     (if \<not> isInitialized g then js ''complex''
      else let normalizedText = normalizeText t in
        if hasOwnProperty (simpleResponses (brain g)) normalizedText then js ''simple''
        else let ws = split_words normalizedText in
          if length ws = 0 then js ''simple''
          else case word_check (simpleVocab (brain g)) ws of
            Some r \<Rightarrow> r
          | None \<Rightarrow>
              (case (if length ws > 1 then bigram_check (simpleNgrams (brain g)) ws 0 else None) of
                 Some r \<Rightarrow> r
               | None \<Rightarrow> js ''simple''))"

text \<open>
  \<^verbatim>\<open>classify\<close> of the version before the bigram check (the first \<^verbatim>\<open>gatekeeper\<close> object of
  the source). Its brain has no \<^verbatim>\<open>simpleNgrams\<close>; it reads \<^verbatim>\<open>isInitialized\<close>,
  \<^verbatim>\<open>simpleResponses\<close> and \<^verbatim>\<open>simpleVocab\<close> only.
\<close>

definition classify_v1 :: "gatekeeper \<Rightarrow> jsstring \<Rightarrow> jsstring" where
  "classify_v1 g t =
     (if \<not> isInitialized g then js ''complex''
      else let normalizedText = normalizeText t in
        if hasOwnProperty (simpleResponses (brain g)) normalizedText then js ''simple''
        else let ws = split_words normalizedText in
          if length ws = 0 then js ''simple''
          else case word_check (simpleVocab (brain g)) ws of
            Some r \<Rightarrow> r
          | None \<Rightarrow> js ''simple'')"

text \<open>
  \<^verbatim>\<open>this.brain.simpleResponses[normalizedText] || "Okay!"\<close>: an empty string is falsy, an
  inherited object or function is truthy and is what the call returns.
\<close>

definition getSimpleResponse :: "gatekeeper \<Rightarrow> jsstring \<Rightarrow> jsstring jsvalue" where
  "getSimpleResponse g t =
     (case obj_get (simpleResponses (brain g)) (normalizeText t) of
        Val r \<Rightarrow> if r \<noteq> [] then Val r else Val (js ''Okay!'')
      | Inherited p \<Rightarrow> Inherited p
      | Undefined \<Rightarrow> Val (js ''Okay!''))"

text \<open>The loop that adds the bigrams of a simple phrase to \<^verbatim>\<open>simpleNgrams\<close>.\<close>

function add_bigrams :: "jsset \<Rightarrow> jsstring list \<Rightarrow> nat \<Rightarrow> jsset" where
  "add_bigrams ngrams ws i =
     (if i < length ws - 1
      then add_bigrams (Set_add ngrams (bigram ws i)) ws (i + 1)
      else ngrams)"
  by pat_completeness auto
termination
  by (relation "measure (\<lambda>(ngrams, ws, i). length ws - 1 - i)") auto

text \<open>
  \<^verbatim>\<open>learnFromFeedback(text, correctCategory, newResponse = null)\<close>. The response is
  \<open>None\<close> when the caller passes none; \<^verbatim>\<open>if (newResponse)\<close> holds for a non-empty string.
\<close>

definition learn_simple :: "brain \<Rightarrow> jsstring \<Rightarrow> jsstring list \<Rightarrow> jsstring option \<Rightarrow> brain" where
  "learn_simple b normalizedText ws newResponse =
     (let b1 = (case newResponse of
                  Some r \<Rightarrow> if r \<noteq> []
                            then b\<lparr>simpleResponses := obj_set (simpleResponses b) normalizedText r\<rparr>
                            else b
                | None \<Rightarrow> b);
          b2 = b1\<lparr>simpleVocab := foldl Set_add (simpleVocab b1) ws\<rparr>
      in if length ws > 1
         then b2\<lparr>simpleNgrams := add_bigrams (simpleNgrams b2) ws 0\<rparr>
         else b2)"

definition remember :: "brain \<Rightarrow> jsstring \<Rightarrow> jsstring \<Rightarrow> brain" where
  "remember b normalizedText correctCategory =
     (if \<not> list_ex (\<lambda>m. input m = normalizedText) (memory b)
      then b\<lparr>memory := memory b @ [\<lparr>input = normalizedText, category = correctCategory\<rparr>]\<rparr>
      else b)"

definition learn_brain :: "brain \<Rightarrow> jsstring \<Rightarrow> jsstring \<Rightarrow> jsstring option \<Rightarrow> brain" where
  "learn_brain b t correctCategory newResponse =
     (let normalizedText = normalizeText t;
          ws = split_words normalizedText;
          b1 = (if correctCategory = js ''simple''
                then learn_simple b normalizedText ws newResponse else b);
          b2 = updateVocab b1 normalizedText
      in remember b2 normalizedText correctCategory)"

definition learnFromFeedback :: "world \<Rightarrow> jsstring \<Rightarrow> jsstring \<Rightarrow> jsstring option \<Rightarrow> world" where
  "learnFromFeedback w t correctCategory newResponse =
     saveBrain (w\<lparr>gk := (gk w)\<lparr>brain := learn_brain (brain (gk w)) t correctCategory newResponse\<rparr>\<rparr>)"

section \<open>The seed brain\<close>

record seed =
  seed_input :: jsstring
  seed_category :: jsstring
  seed_response :: "jsstring option"

definition simple_seed :: "jsstring \<Rightarrow> jsstring \<Rightarrow> seed" where
  "simple_seed i r = \<lparr>seed_input = i, seed_category = js ''simple'', seed_response = Some r\<rparr>"

definition complex_seed :: "jsstring \<Rightarrow> seed" where
  "complex_seed i = \<lparr>seed_input = i, seed_category = js ''complex'', seed_response = None\<rparr>"

text \<open>
  \<^verbatim>\<open>initialMemory\<close>. The Russian phrases and replies are written as their code units; an
  apostrophe is the code unit 39.
\<close>

definition initialMemory :: "seed list" where
  "initialMemory =
    [simple_seed (js ''hello'') (js ''Hello there!''),
     simple_seed (js ''hi'') (js ''Hi!''),
     simple_seed (js ''hey'') (js ''Hey!''),
     simple_seed (js ''hello there'') (js ''Hello to you too!''),
     simple_seed (js ''how are you'')
       (js ''I'' @ [39] @ js ''m doing great, thanks for asking!''),
     simple_seed (js ''thanks'') (js ''You'' @ [39] @ js ''re welcome!''),
     simple_seed (js ''thank you'') (js ''Happy to help!''),
     simple_seed (js ''thx'') (js ''Anytime!''),
     simple_seed (js ''ty'') (js ''No problem!''),
     simple_seed (js ''ok'') (js ''Got it.''),
     simple_seed (js ''okay'') (js ''Alright.''),
     simple_seed (js ''bye'') (js ''See you later!''),
     simple_seed (js ''goodbye'') (js ''Goodbye!''),
     simple_seed [1087,1088,1080,1074,1077,1090]
       [1055,1088,1080,1074,1077,1090,1089,1090,1074,1091,1102,33],
     simple_seed [1079,1076,1088,1072,1074,1089,1090,1074,1091,1081]
       [1047,1076,1088,1072,1074,1089,1090,1074,1091,1081,1090,1077,33],
     simple_seed [1082,1072,1082,32,1076,1077,1083,1072]
       [1042,1089,1077,32,1086,1090,1083,1080,1095,1085,1086,44,32,1089,1087,1072,1089,
        1080,1073,1086,33],
     simple_seed [1089,1087,1072,1089,1080,1073,1086]
       [1055,1086,1078,1072,1083,1091,1081,1089,1090,1072,33],
     simple_seed [1073,1083,1072,1075,1086,1076,1072,1088,1102]
       [1056,1072,1076,32,1087,1086,1084,1086,1095,1100,33],
     simple_seed [1089,1087,1089] [1053,1077,32,1079,1072,32,1095,1090,1086,33],
     simple_seed [1087,1086,1082,1072]
       [1044,1086,32,1089,1082,1086,1088,1086,1081,32,1074,1089,1090,1088,1077,1095,1080,33],
     simple_seed [1093,1086,1088,1086,1096,1086] [1054,1090,1083,1080,1095,1085,1086,33],
     simple_seed [1086,1082] [1055,1088,1080,1085,1103,1090,1086,46],
     complex_seed (js ''tell me a joke''),
     complex_seed (js ''what is the weather in london''),
     complex_seed [1088,1072,1089,1089,1082,1072,1078,1080,32,1072,1085,1077,1082,1076,1086,1090],
     complex_seed [1082,1090,1086,32,1090,1072,1082,1086,1081,32,1080,1089,1072,1072,1082,32,
                   1085,1100,1102,1090,1086,1085],
     complex_seed (js ''compare javascript and python'')]"

text \<open>
  The body of \<^verbatim>\<open>initialMemory.forEach\<close>. Every simple entry of \<^verbatim>\<open>initialMemory\<close> carries a
  response; an entry without one would store \<^verbatim>\<open>undefined\<close>, which the model leaves out.
\<close>

definition prepare_entry :: "brain \<Rightarrow> seed \<Rightarrow> brain" where
  "prepare_entry b m =
     (let normalizedInput = normalizeText (seed_input m);
          b1 = b\<lparr>memory := memory b @ [\<lparr>input = normalizedInput, category = seed_category m\<rparr>]\<rparr>;
          b2 = updateVocab b1 normalizedInput
      in if seed_category m = js ''simple''
         then
           (let b3 = (case seed_response m of
                        Some r \<Rightarrow> b2\<lparr>simpleResponses := obj_set (simpleResponses b2) normalizedInput r\<rparr>
                      | None \<Rightarrow> b2);
                ws = filter (\<lambda>w. w \<noteq> []) (split_ws normalizedInput);
                b4 = b3\<lparr>simpleVocab := foldl Set_add (simpleVocab b3) ws\<rparr>
            in if length ws > 1
               then b4\<lparr>simpleNgrams := add_bigrams (simpleNgrams b4) ws 0\<rparr>
               else b4)
         else b2)"

definition prepareInitialBrain :: "brain \<Rightarrow> brain" where
  "prepareInitialBrain b = foldl prepare_entry b initialMemory"

text \<open>
  \<^verbatim>\<open>init\<close>. \<^verbatim>\<open>loadedBrain.simpleVocab || []\<close> is the empty array when the field is absent.
\<close>

definition load_brain :: "brain \<Rightarrow> stored_brain \<Rightarrow> brain" where
  "load_brain b loadedBrain =
     b\<lparr>vocab := s_vocab loadedBrain,
       simpleResponses := s_simpleResponses loadedBrain,
       memory := s_memory loadedBrain,
       simpleVocab := new_Set (case s_simpleVocab loadedBrain of Some a \<Rightarrow> a | None \<Rightarrow> []),
       simpleNgrams := new_Set (case s_simpleNgrams loadedBrain of Some a \<Rightarrow> a | None \<Rightarrow> [])\<rparr>"

definition init :: "world \<Rightarrow> world" where
  "init w =
     (let b0 = (brain (gk w))\<lparr>simpleVocab := new_Set [], simpleNgrams := new_Set []\<rparr>;
          b1 = (case localStorage w of
                  Some savedBrain \<Rightarrow> load_brain b0 savedBrain
                | None \<Rightarrow> prepareInitialBrain b0)
      in saveBrain (w\<lparr>gk := \<lparr>brain = b1, isInitialized = True\<rparr>\<rparr>))"

text \<open>
  A session: the page is loaded with whatever the storage slot holds (the script builds
  \<^verbatim>\<open>gatekeeper0\<close> and calls \<^verbatim>\<open>init\<close>), then feedback is learned, and the page may be
  loaded again. \<open>fresh\<close> is the first load on an empty slot.
\<close>

datatype action = Learn jsstring jsstring "jsstring option" | Reload

fun step :: "world \<Rightarrow> action \<Rightarrow> world" where
  "step w (Learn t c r) = learnFromFeedback w t c r"
| "step w Reload = init \<lparr>gk = gatekeeper0, localStorage = localStorage w\<rparr>"

definition fresh :: world where
  "fresh = init \<lparr>gk = gatekeeper0, localStorage = None\<rparr>"

definition run :: "action list \<Rightarrow> world" where
  "run acts = foldl step fresh acts"

text \<open>
  The learning events of a run, as records: the entries of \<^verbatim>\<open>initialMemory\<close> first, then
  one record for each call of \<^verbatim>\<open>learnFromFeedback\<close>, in order.
\<close>

definition seed_records :: "mem list" where
  "seed_records =
     map (\<lambda>m. \<lparr>input = normalizeText (seed_input m), category = seed_category m\<rparr>) initialMemory"

fun learn_event :: "action \<Rightarrow> mem list" where
  "learn_event (Learn t c r) = [\<lparr>input = normalizeText t, category = c\<rparr>]"
| "learn_event Reload = []"

definition events :: "action list \<Rightarrow> mem list" where
  "events acts = seed_records @ concat (map learn_event acts)"

text \<open>The words seen in a "simple" learning event of a run, the seed phrases included.\<close>

definition event_words :: "mem \<Rightarrow> jsstring list" where
  "event_words e = (if category e = js ''simple'' then split_words (input e) else [])"

definition seen_simple :: "action list \<Rightarrow> jsstring list" where
  "seen_simple acts = concat (map event_words (events acts))"

text \<open>Every word of every key of \<^verbatim>\<open>simpleResponses\<close> is in \<^verbatim>\<open>simpleVocab\<close>.\<close>

definition responses_covered :: "brain \<Rightarrow> bool" where
  "responses_covered b =
     list_all (\<lambda>k. list_all (\<lambda>w. w \<in> set (simpleVocab b)) (split_words k))
       (object_keys (simpleResponses b))"

section \<open>The rule hierarchy as the specification words it\<close>

text \<open>
  The five rules of the specification, written from its text and not from the code:
  (1) the normalised text is a key of \<^verbatim>\<open>simpleResponses\<close>: simple; (2) no words: simple;
  (3) some word is absent from \<^verbatim>\<open>simpleVocab\<close>: complex; (4) at least two words and some
  adjacent pair "w1 w2" is absent from \<^verbatim>\<open>simpleNgrams\<close>: complex; (5) otherwise simple.
\<close>

definition adjacent_pairs :: "jsstring list \<Rightarrow> jsstring list" where
  "adjacent_pairs ws = map (\<lambda>(a, b). a @ [32] @ b) (zip ws (tl ws))"

definition spec_cascade :: "brain \<Rightarrow> jsstring \<Rightarrow> jsstring" where
  "spec_cascade b t =
     (let n = normalizeText t; ws = filter (\<lambda>w. w \<noteq> []) (split_ws n) in
      if n \<in> set (object_keys (simpleResponses b)) then js ''simple''
      else if ws = [] then js ''simple''
      else if list_ex (\<lambda>w. w \<notin> set (simpleVocab b)) ws then js ''complex''
      else if 2 \<le> length ws \<and> list_ex (\<lambda>p. p \<notin> set (simpleNgrams b)) (adjacent_pairs ws)
        then js ''complex''
      else js ''simple'')"

text \<open>The brain of the specification's bigram-gate example, initialised.\<close>

definition bigram_gate_example :: gatekeeper where
  "bigram_gate_example =
     \<lparr>brain = \<lparr>vocab = [],
               simpleVocab = [js ''how'', js ''are'', js ''you'', js ''today''],
               simpleNgrams = [js ''how are'', js ''are you''],
               categories = [js ''simple'', js ''complex''],
               simpleResponses = [], memory = []\<rparr>,
      isInitialized = True\<rparr>"

text \<open>
  A record as the earlier version of the gatekeeper wrote it: no \<^verbatim>\<open>simpleNgrams\<close>, and (as
  a hand-edited record may) a word twice in the \<^verbatim>\<open>simpleVocab\<close> array.
\<close>

definition old_record_example :: stored_brain where
  "old_record_example =
     \<lparr>s_vocab = [(js ''hello'', 0), (js ''hi'', 1)],
      s_simpleVocab = Some [js ''hi'', js ''hello'', js ''hi''],
      s_simpleNgrams = None,
      s_categories = [js ''simple'', js ''complex''],
      s_simpleResponses = [(js ''hello'', js ''Hello there!''), (js ''hi'', js ''Hi!'')],
      s_memory = [\<lparr>input = js ''hello'', category = js ''simple''\<rparr>,
                  \<lparr>input = js ''hi'', category = js ''simple''\<rparr>]\<rparr>"

text \<open>
  A word is registered in \<^verbatim>\<open>vocab\<close> when \<^verbatim>\<open>_updateVocab\<close> has nothing left to do for it:
  it is empty, or an own key, or the key \<^verbatim>\<open>__proto__\<close>, which the assignment never stores.
\<close>

definition registered :: "nat jsobject \<Rightarrow> jsstring \<Rightarrow> bool" where
  "registered v w = (w = [] \<or> hasOwnProperty v w \<or> w = js ''__proto__'')"

text \<open>An initialised gatekeeper that has learned nothing, with an empty storage slot.\<close>

definition blank_world :: world where
  "blank_world = \<lparr>gk = gatekeeper0\<lparr>isInitialized := True\<rparr>, localStorage = None\<rparr>"

text \<open>
  Two runs from the seed brain: one where "morning" is only ever heard in a complex
  phrase, and one where "hello world" is learned as complex and then fed back as simple.
\<close>

definition veto_run :: "action list" where
  "veto_run =
     [Learn (js ''Good morning'') (js ''complex'') None, Reload,
      Learn (js ''see you'') (js ''simple'') (Some (js ''Bye!''))]"

definition relabel_run :: "action list" where
  "relabel_run =
     [Learn (js ''Hello World'') (js ''complex'') None,
      Learn (js ''hello, world!'') (js ''simple'') (Some (js ''Hi!''))]"

declare bigram_check.simps [simp del] add_bigrams.simps [simp del]

section \<open>The normalizer\<close>

lemma trim_subset: "set (trim s) \<subseteq> set s"
  unfolding trim_def by (auto dest!: set_dropWhileD)

lemma trim_ends:
  assumes ne: "trim s \<noteq> []"
  shows "\<not> is_space (hd (trim s)) \<and> \<not> is_space (last (trim s))"
proof -
  define a where "a = dropWhile is_space s"
  define b where "b = dropWhile is_space (rev a)"
  have t: "trim s = rev b" by (simp add: trim_def a_def b_def)
  with ne have bne: "b \<noteq> []" by simp
  then have hb: "\<not> is_space (hd b)" unfolding b_def by (simp add: hd_dropWhile)
  from bne have ane: "a \<noteq> []" unfolding b_def by auto
  then have ha: "\<not> is_space (hd a)" unfolding a_def by (simp add: hd_dropWhile)
  have "rev a = takeWhile is_space (rev a) @ b" unfolding b_def by simp
  then have "a = rev b @ rev (takeWhile is_space (rev a))"
    by (metis rev_append rev_rev_ident)
  with bne have "hd a = hd (rev b)" by (metis hd_append2 rev_is_Nil_conv)
  with ha hb bne show ?thesis unfolding t by (simp add: last_rev)
qed

lemma trim_fixed:
  assumes "s = [] \<or> (\<not> is_space (hd s) \<and> \<not> is_space (last s))"
  shows "trim s = s"
proof (cases "s = []")
  case True
  then show ?thesis by (simp add: trim_def)
next
  case False
  with assms have h: "\<not> is_space (hd s)" and l: "\<not> is_space (last s)" by auto
  from False h have 1: "dropWhile is_space s = s" by (cases s) auto
  from False l have "\<not> is_space (hd (rev s))" by (simp add: hd_rev)
  with False have 2: "dropWhile is_space (rev s) = rev s" by (cases "rev s") auto
  show ?thesis by (simp add: trim_def 1 2)
qed

lemma trim_idem: "trim (trim s) = trim s"
  using trim_ends[of s] by (intro trim_fixed) blast

subsection \<open>Code points and code units\<close>

lemma StringToCodePoints_no_lead:
  "\<not> is_lead_surrogate u \<Longrightarrow> StringToCodePoints (u # us) = u # StringToCodePoints us"
  by (cases us) simp_all

lemma scalar_value_small:
  "scalar_value c \<Longrightarrow> c \<le> 65535 \<Longrightarrow> \<not> is_lead_surrogate c"
  unfolding scalar_value_def is_lead_surrogate_def by arith

lemma decode_encode_one:
  assumes "scalar_value c"
  shows "StringToCodePoints (UTF16EncodeCodePoint c @ us) = c # StringToCodePoints us"
proof (cases "c \<le> 65535")
  case True
  with assms show ?thesis
    by (simp add: UTF16EncodeCodePoint_def StringToCodePoints_no_lead scalar_value_small)
next
  case False
  from assms have lt: "c - 65536 < 1048576" unfolding scalar_value_def by arith
  then have d: "(c - 65536) div 1024 < 1024" by simp
  have m: "(c - 65536) mod 1024 < 1024" by simp
  have "65536 + (c - 65536) div 1024 * 1024 + (c - 65536) mod 1024 = c"
    using False by simp
  with False d m show ?thesis
    by (simp add: UTF16EncodeCodePoint_def is_lead_surrogate_def is_trail_surrogate_def)
qed

lemma decode_encode:
  "list_all scalar_value r \<Longrightarrow> StringToCodePoints (CodePointsToString r) = r"
  by (induction r) (simp_all add: CodePointsToString_def decode_encode_one)

lemma filter_encode_one:
  "filter (\<lambda>u. \<not> is_punct u) (UTF16EncodeCodePoint c)
     = (if is_punct c then [] else UTF16EncodeCodePoint c)"
  by (auto simp: UTF16EncodeCodePoint_def is_punct_def)

lemma filter_encode:
  "filter (\<lambda>u. \<not> is_punct u) (CodePointsToString r)
     = CodePointsToString (filter (\<lambda>c. \<not> is_punct c) r)"
  by (induction r) (simp_all add: CodePointsToString_def filter_encode_one)

lemma is_space_small: "is_space c \<Longrightarrow> c \<le> 65535"
  by (auto simp: is_space_def)

lemma encode_space: "is_space c \<Longrightarrow> UTF16EncodeCodePoint c = [c]"
  by (simp add: UTF16EncodeCodePoint_def is_space_small)

lemma encode_no_space:
  assumes "scalar_value c" and "\<not> is_space c"
  shows "UTF16EncodeCodePoint c \<noteq> []
       \<and> \<not> is_space (hd (UTF16EncodeCodePoint c)) \<and> \<not> is_space (last (UTF16EncodeCodePoint c))"
proof (cases "c \<le> 65535")
  case True
  with assms show ?thesis by (simp add: UTF16EncodeCodePoint_def)
next
  case False
  from assms have "c - 65536 < 1048576" unfolding scalar_value_def by arith
  then have d: "(c - 65536) div 1024 < 1024" by simp
  have m: "(c - 65536) mod 1024 < 1024" by simp
  from False d m show ?thesis
    by (auto simp: UTF16EncodeCodePoint_def is_space_def)
qed

lemma dropWhile_encode:
  "list_all scalar_value r \<Longrightarrow>
   dropWhile is_space (CodePointsToString r) = CodePointsToString (dropWhile is_space r)"
proof (induction r)
  case Nil
  show ?case by (simp add: CodePointsToString_def)
next
  case (Cons c r)
  show ?case
  proof (cases "is_space c")
    case True
    with Cons show ?thesis by (simp add: CodePointsToString_def encode_space)
  next
    case False
    with Cons.prems have e: "UTF16EncodeCodePoint c \<noteq> []"
      "\<not> is_space (hd (UTF16EncodeCodePoint c))"
      using encode_no_space[of c] by simp_all
    then have "dropWhile is_space (UTF16EncodeCodePoint c @ CodePointsToString r)
        = UTF16EncodeCodePoint c @ CodePointsToString r"
      by (cases "UTF16EncodeCodePoint c") simp_all
    with False show ?thesis by (simp add: CodePointsToString_def)
  qed
qed

lemma dropWhile_end_encode:
  "list_all scalar_value r \<Longrightarrow>
   rev (dropWhile is_space (rev (CodePointsToString r)))
     = CodePointsToString (rev (dropWhile is_space (rev r)))"
proof (induction r rule: rev_induct)
  case Nil
  show ?case by (simp add: CodePointsToString_def)
next
  case (snoc c r)
  then have ih: "rev (dropWhile is_space (rev (CodePointsToString r)))
      = CodePointsToString (rev (dropWhile is_space (rev r)))" by simp
  have app: "CodePointsToString (r @ [c]) = CodePointsToString r @ UTF16EncodeCodePoint c"
    by (simp add: CodePointsToString_def)
  show ?case
  proof (cases "is_space c")
    case True
    with ih show ?thesis by (simp add: app encode_space)
  next
    case False
    with snoc.prems have e: "UTF16EncodeCodePoint c \<noteq> []"
      "\<not> is_space (last (UTF16EncodeCodePoint c))"
      using encode_no_space[of c] by simp_all
    then have "\<not> is_space (hd (rev (UTF16EncodeCodePoint c)))" by (simp add: hd_rev)
    with e have "dropWhile is_space (rev (UTF16EncodeCodePoint c) @ rev (CodePointsToString r))
        = rev (UTF16EncodeCodePoint c) @ rev (CodePointsToString r)"
      by (cases "rev (UTF16EncodeCodePoint c)") simp_all
    with False show ?thesis by (simp add: app)
  qed
qed

lemma list_all_dropWhile: "list_all P xs \<Longrightarrow> list_all P (dropWhile Q xs)"
  by (auto simp: list_all_iff dest: set_dropWhileD)

lemma trim_encode:
  assumes "list_all scalar_value r"
  shows "trim (CodePointsToString r) = CodePointsToString (trim r)"
proof -
  from assms have "list_all scalar_value (dropWhile is_space r)" by (rule list_all_dropWhile)
  then show ?thesis
    unfolding trim_def by (simp add: dropWhile_encode[OF assms] dropWhile_end_encode)
qed

subsection \<open>Lower-casing\<close>

lemma entry_image_hit:
  assumes "c \<le> hi" and "lo \<le> c" and "(c - lo) mod stride = 0"
  shows "tgt + (c - lo) \<in> set (entry_image (lo, hi, stride, tgt))"
proof -
  let ?k = "(c - lo) div stride"
  from assms(3) have eq: "?k * stride = c - lo" by (metis div_mult_mod_eq add.right_neutral)
  from assms(1) have "?k \<le> (hi - lo) div stride" by (simp add: div_le_mono)
  then have "?k < (hi - lo) div stride + 1" by arith
  then have "?k \<in> set [0 ..< (hi - lo) div stride + 1]" by (simp only: set_upt atLeastLessThan_iff le0 simp_thms)
  then have "tgt + ?k * stride \<in> (\<lambda>k. tgt + k * stride) ` set [0 ..< (hi - lo) div stride + 1]"
    by (rule imageI)
  then show ?thesis by (simp add: entry_image_def eq)
qed

lemma table_lower_cases:
  "table_lower tbl c = c \<or> table_lower tbl c \<in> set (concat (map entry_image tbl))"
proof (induction tbl)
  case Nil
  show ?case by simp
next
  case (Cons e tbl)
  obtain lo hi stride tgt where e: "e = (lo, hi, stride, tgt)" by (cases e)
  show ?case
  proof (cases "c < lo")
    case True
    then show ?thesis by (simp add: e)
  next
    case False
    show ?thesis
    proof (cases "c \<le> hi \<and> (c - lo) mod stride = 0")
      case True
      with False have "tgt + (c - lo) \<in> set (entry_image (lo, hi, stride, tgt))"
        by (intro entry_image_hit) simp_all
      with True False show ?thesis by (simp add: e)
    next
      case miss: False
      with False Cons show ?thesis by (auto simp: e)
    qed
  qed
qed



lemma entry_image_point:
  assumes "c \<in> set (entry_image (lo, hi, stride, tgt))"
  obtains k where "k \<le> (hi - lo) div stride" and "c = tgt + k * stride"
proof -
  from assms have "c \<in> (\<lambda>k. tgt + k * stride) ` set [0 ..< (hi - lo) div stride + 1]"
    by (simp add: entry_image_def)
  then obtain k where "k \<in> set [0 ..< (hi - lo) div stride + 1]" and c: "c = tgt + k * stride"
    by (rule imageE)
  then have "k < (hi - lo) div stride + 1" by (simp only: set_upt atLeastLessThan_iff)
  then have "k \<le> (hi - lo) div stride" by arith
  with c that show ?thesis by blast
qed

lemma entry_image_bounds:
  assumes "c \<in> set (entry_image (lo, hi, stride, tgt))"
  shows "tgt \<le> c \<and> c \<le> tgt + (hi - lo)"
proof -
  from assms obtain k where k: "k \<le> (hi - lo) div stride" and c: "c = tgt + k * stride"
    by (rule entry_image_point)
  from k have "k * stride \<le> (hi - lo) div stride * stride" by (rule mult_le_mono1)
  also have "\<dots> \<le> hi - lo" by (rule div_times_less_eq_dividend)
  finally show ?thesis using c by simp
qed

lemma no_hit_fixed: "(\<And>e. e \<in> set tbl \<Longrightarrow> \<not> hits e c) \<Longrightarrow> table_lower tbl c = c"
proof (induction tbl)
  case Nil
  show ?case by simp
next
  case (Cons e tbl)
  obtain lo hi stride tgt where e: "e = (lo, hi, stride, tgt)" by (cases e)
  from Cons.prems[of e] have "\<not> hits (lo, hi, stride, tgt) c" by (simp add: e)
  moreover from Cons have "table_lower tbl c = c" by simp
  ultimately show ?case by (auto simp: e)
qed

lemma image_clear_no_hit:
  assumes "image_clear e e'" and "c \<in> set (entry_image e)"
  shows "\<not> hits e' c"
proof -
  obtain lo hi stride tgt where e: "e = (lo, hi, stride, tgt)" by (cases e)
  obtain lo' hi' stride' tgt' where e': "e' = (lo', hi', stride', tgt')" by (cases e')
  from assms(2) have b: "tgt \<le> c" "c \<le> tgt + (hi - lo)"
    using entry_image_bounds[of c lo hi stride tgt] by (simp_all add: e)
  from assms(2) obtain k where c: "c = tgt + k * stride"
    unfolding e by (rule entry_image_point)
  consider "tgt + (hi - lo) < lo' \<or> hi' < tgt"
    | "\<not> (tgt + (hi - lo) < lo' \<or> hi' < tgt)" "lo = hi"
    | "\<not> (tgt + (hi - lo) < lo' \<or> hi' < tgt)" "lo \<noteq> hi" by blast
  then show ?thesis
  proof cases
    case 1
    with b show ?thesis by (auto simp: e')
  next
    case 2
    with b have "c = tgt" by simp
    with 2 assms(1) show ?thesis by (simp add: e e')
  next
    case 3
    with assms(1) have d: "stride mod stride' = 0" and ne: "tgt mod stride' \<noteq> lo' mod stride'"
      by (simp_all add: e e')
    from d obtain m where m: "stride = stride' * m" by (auto simp: mod_eq_0_iff_dvd)
    have "c = tgt + stride' * (k * m)" unfolding c m by (simp add: algebra_simps)
    then have cm: "c mod stride' = tgt mod stride'" by (simp only: mod_mult_self2)
    show ?thesis
    proof
      assume "hits e' c"
      then have le: "lo' \<le> c" and z: "(c - lo') mod stride' = 0" by (simp_all add: e')
      from z obtain j where "c - lo' = stride' * j" by (auto simp: mod_eq_0_iff_dvd)
      with le have "c = lo' + stride' * j" by simp
      then have "c mod stride' = lo' mod stride'" by simp
      with cm ne show False by simp
    qed
  qed
qed

lemma image_plain_point:
  assumes "image_plain e" and "c \<in> set (entry_image e)"
  shows "scalar_value c \<and> c \<noteq> 931 \<and> c \<noteq> 304"
proof -
  obtain lo hi stride tgt where e: "e = (lo, hi, stride, tgt)" by (cases e)
  from assms(2) have b: "tgt \<le> c" "c \<le> tgt + (hi - lo)"
    using entry_image_bounds[of c lo hi stride tgt] by (simp_all add: e)
  from assms(1) b show ?thesis unfolding e scalar_value_def image_plain.simps by arith
qed

lemma block_lower_cases:
  "block_lower bs c = c
   \<or> block_lower bs c \<in> set (concat (map entry_image (concat (map snd bs))))"
proof (induction bs)
  case Nil
  show ?case by simp
next
  case (Cons b bs)
  obtain limit entries where b: "b = (limit, entries)" by (cases b)
  show ?case
  proof (cases "c \<le> limit")
    case True
    with table_lower_cases[of entries c] show ?thesis by (auto simp: b)
  next
    case False
    with Cons show ?thesis by (auto simp: b)
  qed
qed

lemma block_no_hit_fixed:
  "(\<And>e. e \<in> set (concat (map snd bs)) \<Longrightarrow> \<not> hits e c) \<Longrightarrow> block_lower bs c = c"
proof (induction bs)
  case Nil
  show ?case by simp
next
  case (Cons b bs)
  obtain limit entries where b: "b = (limit, entries)" by (cases b)
  have "table_lower entries c = c"
    by (rule no_hit_fixed) (rule Cons.prems, simp add: b)
  moreover have "block_lower bs c = c"
    by (rule Cons.IH) (rule Cons.prems, simp)
  ultimately show ?case by (simp add: b)
qed

lemma table_closed_no_hit:
  assumes "table_closed tbl" and "c \<in> set (concat (map entry_image tbl))"
  shows "scalar_value c \<and> c \<noteq> 931 \<and> c \<noteq> 304 \<and> (\<forall>e'\<in>set tbl. \<not> hits e' c)"
proof -
  from assms(2) obtain e where e: "e \<in> set tbl" "c \<in> set (entry_image e)" by auto
  with assms(1) have p: "image_plain e" and cl: "\<And>e'. e' \<in> set tbl \<Longrightarrow> image_clear e e'"
    by (auto simp: table_closed_def list_all_iff)
  have "\<forall>e'\<in>set tbl. \<not> hits e' c"
    using image_clear_no_hit[OF cl e(2)] by blast
  with image_plain_point[OF p e(2)] show ?thesis by simp
qed

lemma lower_table_is_closed: "table_closed lower_table"
  by (simp add: table_closed_def lower_table_def lower_blocks_def)

lemma simple_lower_stable:
  assumes "scalar_value c" and "c \<noteq> 931" and "c \<noteq> 304"
  shows "lower_stable (simple_lower c)"
proof (cases "simple_lower c = c")
  case True
  with assms show ?thesis by (simp add: lower_stable_def)
next
  case False
  then have "simple_lower c \<in> set (concat (map entry_image lower_table))"
    using block_lower_cases[of lower_blocks c] by (simp add: simple_lower_def lower_table_def)
  with lower_table_is_closed
  have p: "scalar_value (simple_lower c) \<and> simple_lower c \<noteq> 931 \<and> simple_lower c \<noteq> 304"
    and h: "\<forall>e'\<in>set lower_table. \<not> hits e' (simple_lower c)"
    using table_closed_no_hit[of lower_table "simple_lower c"] by simp_all
  have "block_lower lower_blocks (simple_lower c) = simple_lower c"
  proof (rule block_no_hit_fixed)
    fix e
    assume "e \<in> set (concat (map snd lower_blocks))"
    then have "e \<in> set lower_table" by (simp add: lower_table_def)
    with h show "\<not> hits e (simple_lower c)" by blast
  qed
  with p show ?thesis by (simp add: lower_stable_def simple_lower_def)
qed

lemma special_lower_stable:
  "lower_stable 962" "lower_stable 963" "lower_stable 105" "lower_stable 775"
  by (simp_all add: lower_stable_def scalar_value_def simple_lower_def lower_blocks_def)

lemma lower_code_points_stable:
  "list_all scalar_value p \<Longrightarrow> list_all lower_stable (lower_code_points before p)"
  by (induction p arbitrary: before) (simp_all add: special_lower_stable simple_lower_stable)

lemma lower_code_points_fixed:
  "list_all lower_stable r \<Longrightarrow> lower_code_points before r = r"
  by (induction r arbitrary: before) (simp_all add: lower_stable_def)

lemma lower_stable_scalar: "list_all lower_stable r \<Longrightarrow> list_all scalar_value r"
  by (simp add: list_all_iff lower_stable_def)

lemma toLowerCase_stable:
  "list_all lower_stable r \<Longrightarrow> toLowerCase (CodePointsToString r) = CodePointsToString r"
  by (simp add: toLowerCase_def decode_encode lower_stable_scalar lower_code_points_fixed)

lemma toLowerCase_examples:
  "toLowerCase (js ''Hello, World!'') = js ''hello, world!''"
  "toLowerCase [256] = [257]"
  "toLowerCase [304] = [105, 775]"
  "toLowerCase [913, 931] = [945, 962]"
  "toLowerCase [913, 931, 46, 914] = [945, 963, 46, 946]"
  "toLowerCase [55297, 56320] = [55297, 56360]"
  "toLowerCase [55297, 46, 56320] = [55297, 46, 56320]"
  by code_simp+

text \<open>
  C7, as amended. The normalizer is idempotent on every well-formed string, that is, every
  string without an unpaired surrogate: normalising a normalised string changes nothing.
  \<open>normalizeText\<close> is lower-casing, then removing every one of the six punctuation
  characters, then trimming white space at both ends.
\<close>

theorem normalizeText_idempotent_well_formed:
  assumes "well_formed s"
  shows "normalizeText (normalizeText s) = normalizeText s"
proof -
  define q where "q = lower_code_points [] (StringToCodePoints s)"
  define f where "f = filter (\<lambda>c. \<not> is_punct c) q"
  define r where "r = trim f"
  from assms have q: "list_all lower_stable q"
    unfolding q_def well_formed_def by (rule lower_code_points_stable)
  then have fst: "list_all lower_stable f" by (simp add: f_def list_all_iff)
  then have rst: "list_all lower_stable r"
    unfolding r_def list_all_iff using trim_subset by blast
  have n: "normalizeText s = CodePointsToString r"
    by (simp add: normalizeText_def toLowerCase_def q_def[symmetric] filter_encode
        f_def[symmetric] trim_encode lower_stable_scalar[OF fst] r_def)
  have np: "filter (\<lambda>c. \<not> is_punct c) r = r"
  proof -
    have "set r \<subseteq> set f" unfolding r_def by (rule trim_subset)
    then show ?thesis by (auto simp: f_def intro!: filter_True)
  qed
  have "normalizeText (CodePointsToString r)
      = trim (filter (\<lambda>c. \<not> is_punct c) (CodePointsToString r))"
    by (simp add: normalizeText_def toLowerCase_stable[OF rst])
  also have "\<dots> = trim (CodePointsToString r)" by (simp add: filter_encode np)
  also have "\<dots> = CodePointsToString (trim r)"
    by (rule trim_encode) (rule lower_stable_scalar[OF rst])
  also have "trim r = r" unfolding r_def by (rule trim_idem)
  finally show ?thesis by (simp add: n)
qed

theorem normalizeText_idempotent_well_formed_witness:
  "well_formed (js ''  OK, '' @ [55297, 56320, 304] @ js ''!  '')
   \<and> normalizeText (js ''  OK, '' @ [55297, 56320, 304] @ js ''!  '')
       = js ''ok '' @ [55297, 56360, 105, 775]
   \<and> normalizeText (normalizeText (js ''  OK, '' @ [55297, 56320, 304] @ js ''!  ''))
       = js ''ok '' @ [55297, 56360, 105, 775]"
proof -
  have w: "well_formed (js ''  OK, '' @ [55297, 56320, 304] @ js ''!  '')"
    by code_simp
  have e: "normalizeText (js ''  OK, '' @ [55297, 56320, 304] @ js ''!  '')
      = js ''ok '' @ [55297, 56360, 105, 775]"
    by code_simp
  show ?thesis
    using w normalizeText_idempotent_well_formed [OF w] e by simp
qed

text \<open>
  Without well-formedness the normalizer is not idempotent. In the string of a lead
  surrogate, a full stop and a trail surrogate, the first pass lower-cases two lone
  surrogates, which stay, and removes the full stop; the second pass reads the pair as
  U+10400 and lower-cases it to U+10428.
\<close>

theorem normalizeText_not_idempotent:
  "normalizeText (normalizeText [55297, 46, 56320]) \<noteq> normalizeText [55297, 46, 56320]"
  by code_simp

lemma normalizeText_surrogates:
  "normalizeText [55297, 46, 56320] = [55297, 56320]"
  "normalizeText [55297, 56320] = [55297, 56360]"
  by code_simp+

section \<open>Classification\<close>

lemma word_check_eq:
  "word_check sv ws = (if list_ex (\<lambda>w. w \<notin> set sv) ws then Some (js ''complex'') else None)"
  by (induction ws) (simp_all add: Set_has_def)

lemma bigram_check_eq:
  "bigram_check ng ws i =
     (if (\<exists>j. i \<le> j \<and> j < length ws - 1 \<and> bigram ws j \<notin> set ng)
      then Some (js ''complex'') else None)"
proof (induction ng ws i rule: bigram_check.induct)
  case (1 ng ws i)
  show ?case
  proof (cases "i < length ws - 1")
    case False
    then have "\<not> (\<exists>j. i \<le> j \<and> j < length ws - 1 \<and> bigram ws j \<notin> set ng)" by auto
    with False show ?thesis by (subst bigram_check.simps) (simp only: if_False)
  next
    case True
    show ?thesis
    proof (cases "Set_has ng (bigram ws i)")
      case False
      with True have "\<exists>j. i \<le> j \<and> j < length ws - 1 \<and> bigram ws j \<notin> set ng"
        unfolding Set_has_def by blast
      with True False show ?thesis
        by (subst bigram_check.simps) (simp only: if_True simp_thms)
    next
      case h: True
      have up: "i + 1 \<le> j" if "i \<le> j" "bigram ws j \<notin> set ng" for j
      proof (cases "j = i")
        case True
        with that h show ?thesis by (simp add: Set_has_def)
      next
        case False
        with that show ?thesis by simp
      qed
      have "(\<exists>j. i \<le> j \<and> j < length ws - 1 \<and> bigram ws j \<notin> set ng)
          = (\<exists>j. i + 1 \<le> j \<and> j < length ws - 1 \<and> bigram ws j \<notin> set ng)"
        using up by (meson add_leD1)
      with True h "1.IH" show ?thesis
        by (subst bigram_check.simps) (simp only: if_True if_False simp_thms)
    qed
  qed
qed

lemma adjacent_pairs_nth:
  "j < length ws - 1 \<Longrightarrow> adjacent_pairs ws ! j = bigram ws j"
  by (simp add: adjacent_pairs_def bigram_def nth_tl)

lemma length_adjacent_pairs: "length (adjacent_pairs ws) = length ws - 1"
  by (simp add: adjacent_pairs_def)

lemma adjacent_pairs_ex:
  "list_ex (\<lambda>p. p \<notin> set ng) (adjacent_pairs ws)
     = (\<exists>j. 0 \<le> j \<and> j < length ws - 1 \<and> bigram ws j \<notin> set ng)"
proof
  assume "list_ex (\<lambda>p. p \<notin> set ng) (adjacent_pairs ws)"
  then obtain p where "p \<in> set (adjacent_pairs ws)" "p \<notin> set ng"
    unfolding list_ex_iff by blast
  then obtain j where "j < length (adjacent_pairs ws)" "adjacent_pairs ws ! j = p"
    unfolding in_set_conv_nth by blast
  with \<open>p \<notin> set ng\<close> show "\<exists>j. 0 \<le> j \<and> j < length ws - 1 \<and> bigram ws j \<notin> set ng"
    using adjacent_pairs_nth[of j ws] by (auto simp: length_adjacent_pairs)
next
  assume "\<exists>j. 0 \<le> j \<and> j < length ws - 1 \<and> bigram ws j \<notin> set ng"
  then obtain j where j: "j < length ws - 1" "bigram ws j \<notin> set ng" by blast
  then have "adjacent_pairs ws ! j \<in> set (adjacent_pairs ws)"
    by (simp add: length_adjacent_pairs)
  with j show "list_ex (\<lambda>p. p \<notin> set ng) (adjacent_pairs ws)"
    unfolding list_ex_iff using adjacent_pairs_nth[of j ws] by auto
qed

text \<open>
  C1. On an initialised gatekeeper \<^verbatim>\<open>classify\<close> returns what the five rules of the
  specification give, taken in order with the first match winning: exact phrase, empty
  query, unknown word, missing bigram (two words or more), otherwise simple.
\<close>

theorem classify_is_cascade:
  "isInitialized g \<Longrightarrow> classify g t = spec_cascade (brain g) t"
  by (auto simp: classify_def spec_cascade_def Let_def split_words_def hasOwnProperty_def
      object_keys_def word_check_eq bigram_check_eq adjacent_pairs_ex)

theorem classify_is_cascade_witness:
  "isInitialized bigram_gate_example
   \<and> classify bigram_gate_example (js ''how are you today'') = js ''complex''
   \<and> classify bigram_gate_example (js ''how are you'') = js ''simple''"
proof -
  have h: "isInitialized bigram_gate_example"
    by (simp add: bigram_gate_example_def)
  have c1: "spec_cascade (brain bigram_gate_example) (js ''how are you today'') = js ''complex''"
    by code_simp
  have c2: "spec_cascade (brain bigram_gate_example) (js ''how are you'') = js ''simple''"
    by code_simp
  show ?thesis
    using h classify_is_cascade [OF h, of "js ''how are you today''"]
      classify_is_cascade [OF h, of "js ''how are you''"] c1 c2
    by simp
qed

text \<open>
  C8. Before \<^verbatim>\<open>init\<close> has set the \<^verbatim>\<open>isInitialized\<close> flag, \<^verbatim>\<open>classify\<close> answers
  "complex" for every text, whatever the brain holds.
\<close>

theorem classify_uninitialized:
  "\<not> isInitialized g \<Longrightarrow> classify g t = js ''complex''"
  by (simp add: classify_def)

theorem classify_uninitialized_witness:
  "\<not> isInitialized
       (gatekeeper0\<lparr>brain := (brain gatekeeper0)
          \<lparr>simpleResponses := [(js ''hello'', js ''Hello there!'')]\<rparr>\<rparr>)
   \<and> classify
       (gatekeeper0\<lparr>brain := (brain gatekeeper0)
          \<lparr>simpleResponses := [(js ''hello'', js ''Hello there!'')]\<rparr>\<rparr>)
       (js ''hello'') = js ''complex''"
proof -
  let ?g = "gatekeeper0\<lparr>brain := (brain gatekeeper0)
          \<lparr>simpleResponses := [(js ''hello'', js ''Hello there!'')]\<rparr>\<rparr>"
  have h: "\<not> isInitialized ?g" by (simp add: gatekeeper0_def)
  show ?thesis using h classify_uninitialized [OF h, of "js ''hello''"] by simp
qed


lemma js_simple_complex [simp]: "js ''complex'' \<noteq> js ''simple''" "js ''simple'' \<noteq> js ''complex''"
  by (simp_all add: js_def)

text \<open>
  C10. The classifier with the bigram check refines the earlier one towards "complex":
  whenever it answers "simple", the earlier classifier answers "simple" on the same
  gatekeeper and text.
\<close>

theorem classify_refines_v1:
  "classify g t = js ''simple'' \<Longrightarrow> classify_v1 g t = js ''simple''"
  by (auto simp: classify_def classify_v1_def Let_def word_check_eq split: if_splits option.splits)

theorem classify_refines_v1_witness:
  "classify bigram_gate_example (js ''how are you'') = js ''simple''
   \<and> classify_v1 bigram_gate_example (js ''how are you'') = js ''simple''
   \<and> classify bigram_gate_example (js ''how are you today'') = js ''complex''
   \<and> classify_v1 bigram_gate_example (js ''how are you today'') = js ''simple''"
proof -
  have h: "classify bigram_gate_example (js ''how are you'') = js ''simple''"
    by code_simp
  have c: "classify bigram_gate_example (js ''how are you today'') = js ''complex''"
    by code_simp
  have v: "classify_v1 bigram_gate_example (js ''how are you today'') = js ''simple''"
    by code_simp
  show ?thesis
    using h classify_refines_v1 [OF h] c v by simp
qed

section \<open>Sets\<close>

lemma set_Set_add [simp]: "set (Set_add s x) = insert x (set s)"
  by (auto simp: Set_add_def)

lemma distinct_Set_add: "distinct s \<Longrightarrow> distinct (Set_add s x)"
  by (simp add: Set_add_def)

lemma set_foldl_Set_add [simp]: "set (foldl Set_add s xs) = set s \<union> set xs"
  by (induction xs arbitrary: s) auto

lemma distinct_foldl_Set_add: "distinct s \<Longrightarrow> distinct (foldl Set_add s xs)"
  by (induction xs arbitrary: s) (auto simp: distinct_Set_add)

lemma foldl_Set_add_absorb: "set xs \<subseteq> set s \<Longrightarrow> foldl Set_add s xs = s"
  by (induction xs arbitrary: s) (auto simp: Set_add_def)

lemma foldl_Set_add_distinct: "distinct (s @ xs) \<Longrightarrow> foldl Set_add s xs = s @ xs"
  by (induction xs arbitrary: s) (auto simp: Set_add_def)

lemma set_new_Set [simp]: "set (new_Set a) = set a"
  by (simp add: new_Set_def)

lemma distinct_new_Set: "distinct (new_Set a)"
  by (simp add: new_Set_def distinct_foldl_Set_add)

lemma new_Set_distinct: "distinct a \<Longrightarrow> new_Set a = a"
  using foldl_Set_add_distinct[of "[]" a] by (simp add: new_Set_def)

lemma new_Set_idem: "new_Set (new_Set a) = new_Set a"
  by (simp add: new_Set_distinct distinct_new_Set)

lemma add_bigrams_foldl:
  "add_bigrams ng ws i = foldl Set_add ng (map (bigram ws) [i ..< length ws - 1])"
proof (induction ng ws i rule: add_bigrams.induct)
  case (1 ng ws i)
  show ?case
  proof (cases "i < length ws - 1")
    case True
    with "1.IH" show ?thesis
      by (subst add_bigrams.simps) (simp add: upt_conv_Cons)
  next
    case False
    then show ?thesis by (subst add_bigrams.simps) simp
  qed
qed

section \<open>Persistence\<close>

lemma init_loaded:
  "localStorage w = Some s \<Longrightarrow>
   gk (init w) = \<lparr>brain = load_brain ((brain (gk w))\<lparr>simpleVocab := [], simpleNgrams := []\<rparr>) s,
                  isInitialized = True\<rparr>"
  by (simp add: init_def saveBrain_def new_Set_def Let_def)

text \<open>
  C6. Persistence round trip. Loading a stored record and saving again gives a record that
  a second load-and-save leaves exactly as it is, on the same gatekeeper object and on a
  page loaded anew. The members of \<^verbatim>\<open>simpleVocab\<close> and \<^verbatim>\<open>simpleNgrams\<close> after a load are
  the elements of the stored arrays, whatever their order, and none when the field is
  missing; a brain saved and loaded again has the members it had.
\<close>

theorem save_load_roundtrip:
  "localStorage (init (init \<lparr>gk = g, localStorage = Some s\<rparr>))
     = localStorage (init \<lparr>gk = g, localStorage = Some s\<rparr>)
   \<and> localStorage (init \<lparr>gk = gatekeeper0,
                          localStorage = localStorage (init \<lparr>gk = gatekeeper0, localStorage = Some s\<rparr>)\<rparr>)
     = localStorage (init \<lparr>gk = gatekeeper0, localStorage = Some s\<rparr>)
   \<and> set (simpleVocab (brain (gk (init \<lparr>gk = g, localStorage = Some s\<rparr>))))
     = (case s_simpleVocab s of Some a \<Rightarrow> set a | None \<Rightarrow> {})
   \<and> set (simpleNgrams (brain (gk (init \<lparr>gk = g, localStorage = Some s\<rparr>))))
     = (case s_simpleNgrams s of Some a \<Rightarrow> set a | None \<Rightarrow> {})
   \<and> set (simpleVocab (brain (gk (init \<lparr>gk = g, localStorage = localStorage (saveBrain w)\<rparr>))))
     = set (simpleVocab (brain (gk w)))
   \<and> set (simpleNgrams (brain (gk (init \<lparr>gk = g, localStorage = localStorage (saveBrain w)\<rparr>))))
     = set (simpleNgrams (brain (gk w)))"
  by (simp add: init_def saveBrain_def load_brain_def Array_from_def new_Set_idem Let_def
      split: option.splits)

theorem save_load_roundtrip_witness:
  "localStorage (init (init \<lparr>gk = gatekeeper0, localStorage = Some old_record_example\<rparr>))
     = localStorage (init \<lparr>gk = gatekeeper0, localStorage = Some old_record_example\<rparr>)
   \<and> set (simpleVocab (brain (gk (init \<lparr>gk = gatekeeper0, localStorage = Some old_record_example\<rparr>))))
     = {js ''hello'', js ''hi''}
   \<and> set (simpleNgrams (brain (gk (init \<lparr>gk = gatekeeper0, localStorage = Some old_record_example\<rparr>))))
     = {}"
proof -
  have v: "s_simpleVocab old_record_example = Some [js ''hi'', js ''hello'', js ''hi'']"
    and n: "s_simpleNgrams old_record_example = None"
    by (simp_all add: old_record_example_def)
  show ?thesis
    using save_load_roundtrip [of gatekeeper0 old_record_example]
    by (simp only: v n option.case) auto
qed



section \<open>Objects\<close>

lemma set_insert_index [simp]: "set (insert_index n k v obj) = insert (k, v) (set obj)"
  by (induction obj) (auto split: option.splits if_splits)

lemma set_define_own [simp]: "set (define_own obj k v) = insert (k, v) (set obj)"
  by (simp add: define_own_def split: option.splits)

lemma hasOwnProperty_iff: "hasOwnProperty obj k = (\<exists>v. (k, v) \<in> set obj)"
  by (force simp: hasOwnProperty_def)

lemma set_obj_set_new:
  "\<not> hasOwnProperty obj k \<Longrightarrow>
   set (obj_set obj k v) = (if k = js ''__proto__'' then set obj else insert (k, v) (set obj))"
  by (simp add: obj_set_def)

lemma keys_obj_set_own:
  "hasOwnProperty obj k \<Longrightarrow> map fst (obj_set obj k v) = map fst obj"
  by (simp add: obj_set_def case_prod_beta cong: if_cong)

lemma hasOwnProperty_obj_set:
  "hasOwnProperty (obj_set obj k v) k' =
     (hasOwnProperty obj k' \<or> (k' = k \<and> k \<noteq> js ''__proto__''))"
proof (cases "hasOwnProperty obj k")
  case True
  then show ?thesis
    using keys_obj_set_own[of obj k v] by (auto simp: hasOwnProperty_def)
next
  case False
  then show ?thesis
    by (auto simp: hasOwnProperty_iff set_obj_set_new)
qed

lemma map_of_single_value:
  assumes "(k, v) \<in> set obj" and "\<And>v'. (k, v') \<in> set obj \<Longrightarrow> v' = v"
  shows "map_of obj k = Some v"
proof -
  from assms(1) obtain x where x: "map_of obj k = Some x"
    using weak_map_of_SomeI by fastforce
  then have "(k, x) \<in> set obj" by (rule map_of_SomeD)
  with assms(2) x show ?thesis by simp
qed

lemma values_obj_set:
  assumes "(k, v') \<in> set (obj_set obj k v)" and "hasOwnProperty obj k \<or> k \<noteq> js ''__proto__''"
  shows "v' = v"
proof (cases "hasOwnProperty obj k")
  case True
  with assms(1) show ?thesis by (auto simp: obj_set_def split: if_splits)
next
  case False
  with assms show ?thesis by (auto simp: set_obj_set_new hasOwnProperty_iff)
qed

lemma map_of_obj_set_same:
  assumes "hasOwnProperty obj k \<or> k \<noteq> js ''__proto__''"
  shows "map_of (obj_set obj k v) k = Some v"
proof -
  from assms have "hasOwnProperty (obj_set obj k v) k"
    by (auto simp: hasOwnProperty_obj_set)
  then obtain x where x: "(k, x) \<in> set (obj_set obj k v)"
    by (auto simp: hasOwnProperty_iff)
  have "x = v" using values_obj_set[OF x assms] .
  with x show ?thesis
    using values_obj_set[OF _ assms] by (intro map_of_single_value) auto
qed

lemma obj_set_idem: "obj_set (obj_set obj k v) k v = obj_set obj k v"
proof (cases "hasOwnProperty obj k \<or> k \<noteq> js ''__proto__''")
  case False
  then have a: "\<not> hasOwnProperty obj k" and b: "k = js ''__proto__''" by auto
  have "obj_set obj k v = obj" using a b by (simp add: obj_set_def)
  then show ?thesis by simp
next
  case True
  then have own: "hasOwnProperty (obj_set obj k v) k"
    by (auto simp: hasOwnProperty_obj_set)
  have vals: "v' = v" if "(k, v') \<in> set (obj_set obj k v)" for v'
    using that True by (rule values_obj_set)
  have "(case x of (k', v') \<Rightarrow> if k' = k then (k', v) else (k', v')) = x"
    if "x \<in> set (obj_set obj k v)" for x
  proof -
    obtain a b where "x = (a, b)" by (cases x)
    with that vals show ?thesis by auto
  qed
  then have "map (\<lambda>(k', v'). if k' = k then (k', v) else (k', v')) (obj_set obj k v) = obj_set obj k v"
    by (intro map_idI)
  with own show ?thesis by (subst obj_set_def) simp
qed

section \<open>Learning, field by field\<close>

lemma learn_brain_simpleResponses:
  "simpleResponses (learn_brain b t c r) =
     (case r of
        Some x \<Rightarrow> if c = js ''simple'' \<and> x \<noteq> []
                  then obj_set (simpleResponses b) (normalizeText t) x else simpleResponses b
      | None \<Rightarrow> simpleResponses b)"
  by (simp add: learn_brain_def learn_simple_def remember_def updateVocab_def Let_def
      split: option.splits)

lemma learn_brain_simpleVocab:
  "simpleVocab (learn_brain b t c r) =
     (if c = js ''simple''
      then foldl Set_add (simpleVocab b) (split_words (normalizeText t)) else simpleVocab b)"
  by (simp add: learn_brain_def learn_simple_def remember_def updateVocab_def Let_def
      split: option.splits)

lemma learn_brain_simpleNgrams:
  "simpleNgrams (learn_brain b t c r) =
     (if c = js ''simple''
      then foldl Set_add (simpleNgrams b)
             (map (bigram (split_words (normalizeText t)))
                  [0 ..< length (split_words (normalizeText t)) - 1])
      else simpleNgrams b)"
  by (simp add: learn_brain_def learn_simple_def remember_def updateVocab_def Let_def
      add_bigrams_foldl split: option.splits)

lemma learn_brain_vocab:
  "vocab (learn_brain b t c r) = foldl updateVocab_word (vocab b) (split_ws (normalizeText t))"
  by (simp add: learn_brain_def learn_simple_def remember_def updateVocab_def Let_def
      split: option.splits)

lemma memory_some_iff:
  "list_ex (\<lambda>m. input m = n) ms = (n \<in> input ` set ms)"
  by (induction ms) auto

lemma learn_brain_memory:
  "memory (learn_brain b t c r) =
     (if normalizeText t \<in> input ` set (memory b) then memory b
      else memory b @ [\<lparr>input = normalizeText t, category = c\<rparr>])"
  by (simp add: learn_brain_def learn_simple_def remember_def updateVocab_def Let_def
      memory_some_iff split: option.splits)

lemma learn_brain_categories: "categories (learn_brain b t c r) = categories b"
  by (simp add: learn_brain_def learn_simple_def remember_def updateVocab_def Let_def
      split: option.splits)

lemma learnFromFeedback_gk:
  "gk (learnFromFeedback w t c r) = (gk w)\<lparr>brain := learn_brain (brain (gk w)) t c r\<rparr>"
  by (simp add: learnFromFeedback_def saveBrain_def)

lemma brain_learnFromFeedback:
  "brain (gk (learnFromFeedback w t c r)) = learn_brain (brain (gk w)) t c r"
  by (simp add: learnFromFeedback_gk)

lemma isInitialized_learnFromFeedback:
  "isInitialized (gk (learnFromFeedback w t c r)) = isInitialized (gk w)"
  by (simp add: learnFromFeedback_gk)

section \<open>Learning the same thing twice\<close>

lemma updateVocab_word_keeps:
  "hasOwnProperty v k \<Longrightarrow> hasOwnProperty (updateVocab_word v w) k"
  by (simp add: updateVocab_word_def hasOwnProperty_obj_set)

lemma foldl_updateVocab_word_keeps:
  "hasOwnProperty v k \<Longrightarrow> hasOwnProperty (foldl updateVocab_word v ws) k"
  by (induction ws arbitrary: v) (simp_all add: updateVocab_word_keeps)

lemma updateVocab_word_registers: "registered (updateVocab_word v w) w"
  by (simp add: registered_def updateVocab_word_def hasOwnProperty_obj_set)

lemma registered_keeps: "registered v k \<Longrightarrow> registered (foldl updateVocab_word v ws) k"
  by (auto simp: registered_def foldl_updateVocab_word_keeps)

lemma foldl_updateVocab_word_registers:
  "w \<in> set ws \<Longrightarrow> registered (foldl updateVocab_word v ws) w"
proof (induction ws arbitrary: v)
  case Nil
  then show ?case by simp
next
  case (Cons a ws)
  show ?case
  proof (cases "w = a")
    case True
    then show ?thesis
      using registered_keeps[OF updateVocab_word_registers, of v a ws] by simp
  next
    case False
    with Cons show ?thesis by simp
  qed
qed

lemma updateVocab_word_fixed: "registered v w \<Longrightarrow> updateVocab_word v w = v"
  by (auto simp: registered_def updateVocab_word_def obj_set_def)

lemma foldl_updateVocab_word_fixed:
  "(\<And>w. w \<in> set ws \<Longrightarrow> registered v w) \<Longrightarrow> foldl updateVocab_word v ws = v"
  by (induction ws) (simp_all add: updateVocab_word_fixed)

lemma foldl_updateVocab_word_idem:
  "foldl updateVocab_word (foldl updateVocab_word v ws) ws = foldl updateVocab_word v ws"
  by (rule foldl_updateVocab_word_fixed) (rule foldl_updateVocab_word_registers)

lemma foldl_Set_add_idem: "foldl Set_add (foldl Set_add s xs) xs = foldl Set_add s xs"
  by (rule foldl_Set_add_absorb) simp

lemma learn_brain_idem: "learn_brain (learn_brain b t c r) t c r = learn_brain b t c r"
proof (rule brain.equality)
  show "vocab (learn_brain (learn_brain b t c r) t c r) = vocab (learn_brain b t c r)"
    by (simp add: learn_brain_vocab foldl_updateVocab_word_idem)
  show "simpleVocab (learn_brain (learn_brain b t c r) t c r) = simpleVocab (learn_brain b t c r)"
    by (simp add: learn_brain_simpleVocab foldl_Set_add_idem)
  show "simpleNgrams (learn_brain (learn_brain b t c r) t c r) = simpleNgrams (learn_brain b t c r)"
    by (simp add: learn_brain_simpleNgrams foldl_Set_add_idem)
  show "categories (learn_brain (learn_brain b t c r) t c r) = categories (learn_brain b t c r)"
    by (simp add: learn_brain_categories)
  show "simpleResponses (learn_brain (learn_brain b t c r) t c r)
      = simpleResponses (learn_brain b t c r)"
    by (simp add: learn_brain_simpleResponses obj_set_idem split: option.splits)
  show "memory (learn_brain (learn_brain b t c r) t c r) = memory (learn_brain b t c r)"
    by (simp add: learn_brain_memory)
  show "brain.more (learn_brain (learn_brain b t c r) t c r) = brain.more (learn_brain b t c r)"
    by simp
qed

text \<open>
  C9. Learning is idempotent: a second call of \<^verbatim>\<open>learnFromFeedback\<close> with the same text,
  category and response, right after the first, leaves \<^verbatim>\<open>vocab\<close>, \<^verbatim>\<open>simpleVocab\<close>,
  \<^verbatim>\<open>simpleNgrams\<close>, \<^verbatim>\<open>simpleResponses\<close> and \<^verbatim>\<open>memory\<close> (the whole brain, and the
  stored copy with it) as the first call left them.
\<close>

theorem learnFromFeedback_idempotent:
  "learnFromFeedback (learnFromFeedback w t c r) t c r = learnFromFeedback w t c r
   \<and> brain (gk (learnFromFeedback (learnFromFeedback w t c r) t c r))
     = brain (gk (learnFromFeedback w t c r))"
  by (simp add: learnFromFeedback_def saveBrain_def learn_brain_idem)

theorem learnFromFeedback_idempotent_witness:
  "brain (gk (learnFromFeedback
       (learnFromFeedback blank_world (js ''Hello, World!'') (js ''simple'') (Some (js ''Hi!'')))
       (js ''Hello, World!'') (js ''simple'') (Some (js ''Hi!''))))
   = \<lparr>vocab = [(js ''hello'', 0), (js ''world'', 1)],
      simpleVocab = [js ''hello'', js ''world''],
      simpleNgrams = [js ''hello world''],
      categories = [js ''simple'', js ''complex''],
      simpleResponses = [(js ''hello world'', js ''Hi!'')],
      memory = [\<lparr>input = js ''hello world'', category = js ''simple''\<rparr>]\<rparr>"
proof -
  have e: "brain (gk (learnFromFeedback blank_world (js ''Hello, World!'') (js ''simple'')
               (Some (js ''Hi!''))))
         = \<lparr>vocab = [(js ''hello'', 0), (js ''world'', 1)],
            simpleVocab = [js ''hello'', js ''world''],
            simpleNgrams = [js ''hello world''],
            categories = [js ''simple'', js ''complex''],
            simpleResponses = [(js ''hello world'', js ''Hi!'')],
            memory = [\<lparr>input = js ''hello world'', category = js ''simple''\<rparr>]\<rparr>"
    by code_simp
  show ?thesis
    using learnFromFeedback_idempotent
      [of blank_world "js ''Hello, World!''" "js ''simple''" "Some (js ''Hi!'')"] e
    by simp
qed



section \<open>Feedback that a query is complex\<close>

lemma updateVocab_word_grows: "set v \<subseteq> set (updateVocab_word v w)"
  by (auto simp: updateVocab_word_def set_obj_set_new)

lemma foldl_updateVocab_word_grows: "set v \<subseteq> set (foldl updateVocab_word v ws)"
proof (induction ws arbitrary: v)
  case Nil
  show ?case by simp
next
  case (Cons a ws)
  have "set v \<subseteq> set (updateVocab_word v a)" by (rule updateVocab_word_grows)
  also have "\<dots> \<subseteq> set (foldl updateVocab_word (updateVocab_word v a) ws)" by (rule Cons.IH)
  finally show ?case by simp
qed

lemma classify_reads:
  assumes "isInitialized g' = isInitialized g"
    and "simpleResponses (brain g') = simpleResponses (brain g)"
    and "simpleVocab (brain g') = simpleVocab (brain g)"
    and "simpleNgrams (brain g') = simpleNgrams (brain g)"
  shows "classify g' q = classify g q"
  unfolding classify_def assms by (rule refl)

text \<open>
  C5. A call \<^verbatim>\<open>learnFromFeedback(text, "complex")\<close> leaves \<^verbatim>\<open>simpleVocab\<close>,
  \<^verbatim>\<open>simpleNgrams\<close> and \<^verbatim>\<open>simpleResponses\<close> exactly as they were. \<^verbatim>\<open>vocab\<close> keeps every
  property it had and \<^verbatim>\<open>memory\<close> keeps every record, with at most one record appended.
  So every query is classified as before; in the end-to-end scenario "hello world" stays
  complex.
\<close>

theorem learn_complex_frame:
  "simpleVocab (brain (gk (learnFromFeedback w t (js ''complex'') r))) = simpleVocab (brain (gk w))
   \<and> simpleNgrams (brain (gk (learnFromFeedback w t (js ''complex'') r))) = simpleNgrams (brain (gk w))
   \<and> simpleResponses (brain (gk (learnFromFeedback w t (js ''complex'') r)))
       = simpleResponses (brain (gk w))
   \<and> categories (brain (gk (learnFromFeedback w t (js ''complex'') r))) = categories (brain (gk w))
   \<and> set (vocab (brain (gk w))) \<subseteq> set (vocab (brain (gk (learnFromFeedback w t (js ''complex'') r))))
   \<and> memory (brain (gk (learnFromFeedback w t (js ''complex'') r)))
       = (if normalizeText t \<in> input ` set (memory (brain (gk w)))
          then memory (brain (gk w))
          else memory (brain (gk w)) @ [\<lparr>input = normalizeText t, category = js ''complex''\<rparr>])
   \<and> classify (gk (learnFromFeedback w t (js ''complex'') r)) q = classify (gk w) q"
proof -
  let ?w' = "learnFromFeedback w t (js ''complex'') r"
  have sv: "simpleVocab (brain (gk ?w')) = simpleVocab (brain (gk w))"
    by (simp add: brain_learnFromFeedback learn_brain_simpleVocab)
  have sn: "simpleNgrams (brain (gk ?w')) = simpleNgrams (brain (gk w))"
    by (simp add: brain_learnFromFeedback learn_brain_simpleNgrams)
  have sr: "simpleResponses (brain (gk ?w')) = simpleResponses (brain (gk w))"
    by (simp add: brain_learnFromFeedback learn_brain_simpleResponses split: option.splits)
  have ca: "categories (brain (gk ?w')) = categories (brain (gk w))"
    by (simp add: brain_learnFromFeedback learn_brain_categories)
  have vo: "set (vocab (brain (gk w))) \<subseteq> set (vocab (brain (gk ?w')))"
    by (simp add: brain_learnFromFeedback learn_brain_vocab foldl_updateVocab_word_grows)
  have me: "memory (brain (gk ?w'))
       = (if normalizeText t \<in> input ` set (memory (brain (gk w)))
          then memory (brain (gk w))
          else memory (brain (gk w)) @ [\<lparr>input = normalizeText t, category = js ''complex''\<rparr>])"
    by (simp only: brain_learnFromFeedback learn_brain_memory)
  have cl: "classify (gk ?w') q = classify (gk w) q"
    using isInitialized_learnFromFeedback sr sv sn by (rule classify_reads)
  from sv sn sr ca vo me cl show ?thesis by (intro conjI)
qed

lemma fresh_hello_world: "classify (gk fresh) (js ''hello world'') = js ''complex''"
  by code_simp

lemma fresh_hello_world_new:
  "normalizeText (js ''hello world'') \<notin> input ` set (memory (brain (gk fresh)))"
  by code_simp

theorem learn_complex_frame_witness:
  "classify (gk fresh) (js ''hello world'') = js ''complex''
   \<and> classify (gk (learnFromFeedback fresh (js ''hello world'') (js ''complex'') None))
        (js ''hello world'') = js ''complex''
   \<and> last (memory (brain (gk (learnFromFeedback fresh (js ''hello world'') (js ''complex'') None))))
       = \<lparr>input = js ''hello world'', category = js ''complex''\<rparr>"
proof -
  have n: "normalizeText (js ''hello world'') = js ''hello world''" by code_simp
  show ?thesis
    using learn_complex_frame [of fresh "js ''hello world''" None "js ''hello world''"]
      fresh_hello_world fresh_hello_world_new n
    by simp
qed

section \<open>Teaching a response\<close>

lemma obj_get_obj_set_same:
  "hasOwnProperty obj k \<or> k \<noteq> js ''__proto__'' \<Longrightarrow> obj_get (obj_set obj k v) k = Val v"
  by (simp add: obj_get_def map_of_obj_set_same)

lemma learn_simple_then_served:
  assumes init: "isInitialized (gk w)" and r: "r \<noteq> []"
    and key: "hasOwnProperty (simpleResponses (brain (gk w))) (normalizeText p)
              \<or> normalizeText p \<noteq> js ''__proto__''"
  shows "classify (gk (learnFromFeedback w p (js ''simple'') (Some r))) p = js ''simple''
       \<and> getSimpleResponse (gk (learnFromFeedback w p (js ''simple'') (Some r))) p = Val r"
proof -
  let ?w' = "learnFromFeedback w p (js ''simple'') (Some r)"
  have sr: "simpleResponses (brain (gk ?w'))
      = obj_set (simpleResponses (brain (gk w))) (normalizeText p) r"
    using r by (simp add: brain_learnFromFeedback learn_brain_simpleResponses)
  have own: "hasOwnProperty (simpleResponses (brain (gk ?w'))) (normalizeText p)"
    using key by (auto simp: sr hasOwnProperty_obj_set)
  have "classify (gk ?w') p = js ''simple''"
    using init own by (simp add: classify_def isInitialized_learnFromFeedback)
  moreover have "getSimpleResponse (gk ?w') p = Val r"
    using r key by (simp add: getSimpleResponse_def sr obj_get_obj_set_same)
  ultimately show ?thesis by simp
qed

text \<open>
  C2. After \<^verbatim>\<open>learnFromFeedback(p, "simple", r)\<close> with a non-empty \<open>r\<close> on an initialised
  gatekeeper, \<^verbatim>\<open>classify(p)\<close> is "simple" and \<^verbatim>\<open>getSimpleResponse(p)\<close> is \<open>r\<close>: that is
  \<open>learn_simple_then_served\<close>, for every phrase but one. For the phrase \<^verbatim>\<open>__proto__\<close>,
  taught to the seed brain with the response "hi", the assignment stores nothing, the
  query is still classified simple, and the lookup returns the object inherited under
  that name instead of "hi".
\<close>

theorem proto_response_lost:
  "classify (gk (learnFromFeedback fresh (js ''__proto__'') (js ''simple'') (Some (js ''hi''))))
     (js ''__proto__'') = js ''simple''
   \<and> getSimpleResponse
       (gk (learnFromFeedback fresh (js ''__proto__'') (js ''simple'') (Some (js ''hi''))))
       (js ''__proto__'') = Inherited (js ''__proto__'')
   \<and> simpleResponses (brain (gk (learnFromFeedback fresh (js ''__proto__'') (js ''simple'')
         (Some (js ''hi''))))) = simpleResponses (brain (gk fresh))"
  by code_simp

section \<open>Runs\<close>

lemma run_Nil: "run [] = fresh"
  by (simp add: run_def)

lemma run_snoc: "run (acts @ [a]) = step (run acts) a"
  by (simp add: run_def)

lemma saveBrain_idem: "saveBrain (saveBrain w) = saveBrain w"
  by (simp add: saveBrain_def)

lemma run_saved: "saveBrain (run acts) = run acts"
proof (cases acts rule: rev_cases)
  case Nil
  then show ?thesis by (simp add: run_Nil fresh_def init_def saveBrain_idem Let_def)
next
  case (snoc as a)
  then show ?thesis
    by (cases a) (simp_all add: run_snoc init_def learnFromFeedback_def saveBrain_idem Let_def)
qed

lemma brain_reload:
  assumes "saveBrain w = w"
  shows "brain (gk (step w Reload))
       = (brain (gk w))\<lparr>simpleVocab := new_Set (simpleVocab (brain (gk w))),
                         simpleNgrams := new_Set (simpleNgrams (brain (gk w))),
                         categories := categories (brain gatekeeper0)\<rparr>"
proof -
  have "localStorage w = localStorage (saveBrain w)" using assms by simp
  then show ?thesis
    by (simp add: init_def saveBrain_def load_brain_def Array_from_def Let_def)
qed

lemma brain_fresh: "brain (gk fresh) = foldl prepare_entry (brain gatekeeper0) initialMemory"
  by (simp add: fresh_def init_def saveBrain_def prepareInitialBrain_def Let_def new_Set_def
      gatekeeper0_def)

lemma isInitialized_run: "isInitialized (gk (run acts))"
proof (induction acts rule: rev_induct)
  case Nil
  show ?case by (simp add: run_Nil fresh_def init_def saveBrain_def Let_def)
next
  case (snoc a as)
  then show ?case
    by (cases a)
      (simp_all add: run_snoc isInitialized_learnFromFeedback init_def saveBrain_def Let_def)
qed

section \<open>The seed\<close>

lemma split_words_alt: "filter (\<lambda>w. w \<noteq> []) (split_ws s) = split_words s"
  by (simp add: split_words_def)

lemma prepare_entry_memory:
  "memory (prepare_entry b m)
     = memory b @ [\<lparr>input = normalizeText (seed_input m), category = seed_category m\<rparr>]"
  by (simp add: prepare_entry_def updateVocab_def Let_def split: option.splits)

lemma prepare_entry_simpleVocab:
  "simpleVocab (prepare_entry b m)
     = foldl Set_add (simpleVocab b)
         (event_words \<lparr>input = normalizeText (seed_input m), category = seed_category m\<rparr>)"
  by (simp add: prepare_entry_def updateVocab_def Let_def event_words_def split_words_alt
      split: option.splits)

lemma prepare_entry_simpleResponses:
  "simpleResponses (prepare_entry b m)
     = (case seed_response m of
          Some r \<Rightarrow> if seed_category m = js ''simple''
                    then obj_set (simpleResponses b) (normalizeText (seed_input m)) r
                    else simpleResponses b
        | None \<Rightarrow> simpleResponses b)"
  by (simp add: prepare_entry_def updateVocab_def Let_def split: option.splits)

lemma foldl_prepare_entry_memory:
  "memory (foldl prepare_entry b ms)
     = memory b @ map (\<lambda>m. \<lparr>input = normalizeText (seed_input m), category = seed_category m\<rparr>) ms"
  by (induction ms arbitrary: b) (simp_all add: prepare_entry_memory)

lemma foldl_prepare_entry_simpleVocab:
  "set (simpleVocab (foldl prepare_entry b ms))
     = set (simpleVocab b)
       \<union> set (concat (map event_words
           (map (\<lambda>m. \<lparr>input = normalizeText (seed_input m), category = seed_category m\<rparr>) ms)))"
  by (induction ms arbitrary: b) (auto simp: prepare_entry_simpleVocab)


section \<open>The unknown-word veto\<close>

lemma responses_covered_iff:
  "responses_covered b =
     (\<forall>k. hasOwnProperty (simpleResponses b) k \<longrightarrow> set (split_words k) \<subseteq> set (simpleVocab b))"
  by (auto simp: responses_covered_def list_all_iff hasOwnProperty_def object_keys_def)

lemma set_event_words:
  "set (event_words \<lparr>input = n, category = c\<rparr>)
     = (if c = js ''simple'' then set (split_words n) else {})"
  by (simp add: event_words_def)

lemma prepare_entry_covered:
  assumes "responses_covered b"
  shows "responses_covered (prepare_entry b m)"
  unfolding responses_covered_iff
proof (intro allI impI)
  fix k
  assume own: "hasOwnProperty (simpleResponses (prepare_entry b m)) k"
  have sv: "set (simpleVocab b) \<subseteq> set (simpleVocab (prepare_entry b m))"
    by (simp add: prepare_entry_simpleVocab)
  show "set (split_words k) \<subseteq> set (simpleVocab (prepare_entry b m))"
  proof (cases "hasOwnProperty (simpleResponses b) k")
    case True
    with assms sv show ?thesis unfolding responses_covered_iff by blast
  next
    case False
    with own have "k = normalizeText (seed_input m) \<and> seed_category m = js ''simple''"
      by (auto simp: prepare_entry_simpleResponses hasOwnProperty_obj_set
          split: option.splits if_splits)
    then show ?thesis
      by (simp add: prepare_entry_simpleVocab set_event_words)
  qed
qed

lemma foldl_prepare_entry_covered:
  "responses_covered b \<Longrightarrow> responses_covered (foldl prepare_entry b ms)"
  by (induction ms arbitrary: b) (simp_all add: prepare_entry_covered)

lemma learn_brain_covered:
  assumes "responses_covered b"
  shows "responses_covered (learn_brain b t c r)"
  unfolding responses_covered_iff
proof (intro allI impI)
  fix k
  assume own: "hasOwnProperty (simpleResponses (learn_brain b t c r)) k"
  have sv: "set (simpleVocab b) \<subseteq> set (simpleVocab (learn_brain b t c r))"
    by (simp add: learn_brain_simpleVocab)
  show "set (split_words k) \<subseteq> set (simpleVocab (learn_brain b t c r))"
  proof (cases "hasOwnProperty (simpleResponses b) k")
    case True
    with assms sv show ?thesis unfolding responses_covered_iff by blast
  next
    case False
    with own have "k = normalizeText t \<and> c = js ''simple''"
      by (auto simp: learn_brain_simpleResponses hasOwnProperty_obj_set
          split: option.splits if_splits)
    then show ?thesis
      by (simp add: learn_brain_simpleVocab)
  qed
qed

lemma seen_simple_Nil: "seen_simple [] = concat (map event_words seed_records)"
  by (simp add: seen_simple_def events_def)

lemma events_snoc: "events (acts @ [a]) = events acts @ learn_event a"
  by (simp add: events_def)

lemma seen_simple_snoc:
  "seen_simple (acts @ [a]) = seen_simple acts @ concat (map event_words (learn_event a))"
  by (simp add: seen_simple_def events_snoc)

lemma run_vocabulary:
  "responses_covered (brain (gk (run acts)))
   \<and> set (simpleVocab (brain (gk (run acts)))) = set (seen_simple acts)"
proof (induction acts rule: rev_induct)
  case Nil
  have "responses_covered (brain gatekeeper0)"
    by (simp add: responses_covered_iff gatekeeper0_def hasOwnProperty_def)
  then have "responses_covered (brain (gk fresh))"
    unfolding brain_fresh by (rule foldl_prepare_entry_covered)
  moreover have "set (simpleVocab (brain (gk fresh))) = set (seen_simple [])"
    by (simp add: brain_fresh foldl_prepare_entry_simpleVocab seen_simple_Nil seed_records_def
        gatekeeper0_def)
  ultimately show ?case by (simp add: run_Nil)
next
  case (snoc a as)
  then have cov: "responses_covered (brain (gk (run as)))"
    and sv: "set (simpleVocab (brain (gk (run as)))) = set (seen_simple as)" by simp_all
  show ?case
  proof (cases a)
    case (Learn t c r)
    have "responses_covered (brain (gk (run (as @ [a]))))"
      using cov by (simp add: run_snoc Learn brain_learnFromFeedback learn_brain_covered)
    moreover have "set (simpleVocab (brain (gk (run (as @ [a]))))) = set (seen_simple (as @ [a]))"
      using sv
      by (simp add: run_snoc Learn brain_learnFromFeedback learn_brain_simpleVocab
          seen_simple_snoc set_event_words)
    ultimately show ?thesis by simp
  next
    case Reload
    have b: "brain (gk (run (as @ [a])))
        = (brain (gk (run as)))\<lparr>simpleVocab := new_Set (simpleVocab (brain (gk (run as)))),
              simpleNgrams := new_Set (simpleNgrams (brain (gk (run as)))),
              categories := categories (brain gatekeeper0)\<rparr>"
      unfolding run_snoc Reload by (rule brain_reload) (rule run_saved)
    have "responses_covered (brain (gk (run (as @ [a]))))"
      using cov unfolding b by (simp add: responses_covered_iff)
    moreover have "set (simpleVocab (brain (gk (run (as @ [a]))))) = set (seen_simple (as @ [a]))"
      using sv unfolding b by (simp add: seen_simple_snoc Reload)
    ultimately show ?thesis by simp
  qed
qed

text \<open>
  C3. The unknown-word veto. In every state reached from the seed brain by learning
  (and reloading the page), a query with a word that no "simple" learning event has shown,
  the seed phrases included, is classified complex, whatever its other words are.
\<close>

theorem unknown_word_veto:
  assumes "w \<in> set (split_words (normalizeText q))" and "w \<notin> set (seen_simple acts)"
  shows "classify (gk (run acts)) q = js ''complex''"
proof -
  let ?b = "brain (gk (run acts))"
  from assms(2) have unknown: "w \<notin> set (simpleVocab ?b)"
    using run_vocabulary[of acts] by simp
  have "responses_covered ?b" using run_vocabulary[of acts] by simp
  with assms(1) unknown have no_key: "\<not> hasOwnProperty (simpleResponses ?b) (normalizeText q)"
    unfolding responses_covered_iff by blast
  from assms(1) have words: "length (split_words (normalizeText q)) \<noteq> 0" by auto
  from assms(1) unknown
  have "word_check (simpleVocab ?b) (split_words (normalizeText q)) = Some (js ''complex'')"
    by (auto simp: word_check_eq list_ex_iff)
  with no_key words show ?thesis
    by (simp add: classify_def Let_def)
qed


theorem unknown_word_veto_witness:
  "js ''morning'' \<in> set (split_words (normalizeText (js ''Hello morning!'')))
   \<and> js ''hello'' \<in> set (seen_simple veto_run)
   \<and> js ''morning'' \<notin> set (seen_simple veto_run)
   \<and> classify (gk (run veto_run)) (js ''Hello morning!'') = js ''complex''"
proof -
  have h1: "js ''morning'' \<in> set (split_words (normalizeText (js ''Hello morning!'')))"
    by code_simp
  have h2: "js ''morning'' \<notin> set (seen_simple veto_run)"
    by code_simp
  have h3: "js ''hello'' \<in> set (seen_simple veto_run)"
    by code_simp
  show ?thesis
    using unknown_word_veto [OF h1 h2] h1 h2 h3 by simp
qed

section \<open>Memory\<close>

lemma seed_inputs_distinct: "distinct (map input seed_records)"
  by code_simp

lemma find_append:
  "find P (xs @ ys) = (case find P xs of None \<Rightarrow> find P ys | Some x \<Rightarrow> Some x)"
  by (induction xs) simp_all

lemma find_first_input:
  "distinct (map input xs) \<Longrightarrow> m \<in> set xs \<Longrightarrow> find (\<lambda>e. input e = input m) xs = Some m"
  by (induction xs) (auto simp: image_iff)

lemma find_SomeD: "find P xs = Some x \<Longrightarrow> x \<in> set xs \<and> P x"
  by (induction xs) (auto split: if_splits)

lemma find_no_input:
  "n \<notin> input ` set xs \<Longrightarrow> find (\<lambda>e. input e = n) xs = None"
  by (auto simp: find_None_iff)

lemma learn_keeps_one_record_per_input:
  "distinct (map input (memory b)) \<Longrightarrow> distinct (map input (memory (learn_brain b t c r)))"
  by (simp add: learn_brain_memory)

lemma memory_fresh: "memory (brain (gk fresh)) = seed_records"
  by (simp add: brain_fresh foldl_prepare_entry_memory seed_records_def gatekeeper0_def)

lemma run_memory:
  "distinct (map input (memory (brain (gk (run acts)))))
   \<and> input ` set (memory (brain (gk (run acts)))) = input ` set (events acts)
   \<and> (\<forall>m\<in>set (memory (brain (gk (run acts)))).
         find (\<lambda>e. input e = input m) (events acts) = Some m)"
proof (induction acts rule: rev_induct)
  case Nil
  show ?case
    using seed_inputs_distinct
    by (simp add: run_Nil memory_fresh events_def find_first_input)
next
  case (snoc a as)
  let ?M = "memory (brain (gk (run as)))"
  from snoc have d: "distinct (map input ?M)"
    and i: "input ` set ?M = input ` set (events as)"
    and f: "\<And>m. m \<in> set ?M \<Longrightarrow> find (\<lambda>e. input e = input m) (events as) = Some m"
    by simp_all
  show ?case
  proof (cases a)
    case Reload
    have "brain (gk (run (as @ [a])))
        = (brain (gk (run as)))\<lparr>simpleVocab := new_Set (simpleVocab (brain (gk (run as)))),
              simpleNgrams := new_Set (simpleNgrams (brain (gk (run as)))),
              categories := categories (brain gatekeeper0)\<rparr>"
      unfolding run_snoc Reload by (rule brain_reload) (rule run_saved)
    then have "memory (brain (gk (run (as @ [a])))) = ?M" by simp
    with d i f show ?thesis by (simp add: events_snoc Reload)
  next
    case (Learn t c r)
    let ?e = "\<lparr>input = normalizeText t, category = c\<rparr>"
    have ev: "events (as @ [a]) = events as @ [?e]" by (simp add: events_snoc Learn)
    have old: "find (\<lambda>e. input e = input m) (events as @ [?e]) = Some m" if "m \<in> set ?M" for m
      using f[OF that] by (simp add: find_append)
    show ?thesis
    proof (cases "normalizeText t \<in> input ` set ?M")
      case True
      then have M: "memory (brain (gk (run (as @ [a])))) = ?M"
        by (simp add: run_snoc Learn brain_learnFromFeedback learn_brain_memory)
      from True i have "input ` set ?M = input ` set (events as @ [?e])" by auto
      with d old show ?thesis unfolding M ev by simp
    next
      case False
      then have M: "memory (brain (gk (run (as @ [a])))) = ?M @ [?e]"
        by (simp add: run_snoc Learn brain_learnFromFeedback learn_brain_memory)
      from False i have "find (\<lambda>e. input e = normalizeText t) (events as) = None"
        by (simp add: find_no_input)
      then have new: "find (\<lambda>e. input e = input ?e) (events as @ [?e]) = Some ?e"
        by (simp add: find_append)
      from d False have 1: "distinct (map input (?M @ [?e]))" by simp
      from i have 2: "input ` set (?M @ [?e]) = input ` set (events as @ [?e])" by simp
      from old new have 3: "\<forall>m\<in>set (?M @ [?e]).
          find (\<lambda>e. input e = input m) (events as @ [?e]) = Some m" by auto
      from 1 2 3 show ?thesis unfolding M ev by (intro conjI)
    qed
  qed
qed

text \<open>
  C4. In every state reached from the seed brain by learning (and reloading the page,
  which loads what was saved), \<^verbatim>\<open>memory\<close> has at most one record for each normalised
  input; each record is the first learning event with its input, so it carries that
  event's category; every learned input has a record; and a call whose normalised input
  is already there appends nothing, whatever its category.
\<close>

theorem memory_first_wins:
  "distinct (map input (memory (brain (gk (run acts)))))
   \<and> (\<forall>m\<in>set (memory (brain (gk (run acts)))).
         find (\<lambda>e. input e = input m) (events acts) = Some m)
   \<and> input ` set (memory (brain (gk (run acts)))) = input ` set (events acts)
   \<and> memory (brain (gk (learnFromFeedback (run acts) t c r)))
       = (if normalizeText t \<in> input ` set (memory (brain (gk (run acts))))
          then memory (brain (gk (run acts)))
          else memory (brain (gk (run acts))) @ [\<lparr>input = normalizeText t, category = c\<rparr>])"
  using run_memory[of acts]
  by (simp only: brain_learnFromFeedback learn_brain_memory) simp


theorem memory_first_wins_witness:
  "distinct (map input (memory (brain (gk (run relabel_run)))))
   \<and> \<lparr>input = js ''hello world'', category = js ''complex''\<rparr>
       \<in> set (memory (brain (gk (run relabel_run))))
   \<and> \<lparr>input = js ''hello world'', category = js ''simple''\<rparr>
       \<notin> set (memory (brain (gk (run relabel_run))))"
proof -
  let ?M = "memory (brain (gk (run relabel_run)))"
  let ?R = "\<lparr>input = js ''hello world'', category = js ''complex''\<rparr>"
  let ?S = "\<lparr>input = js ''hello world'', category = js ''simple''\<rparr>"
  note th = memory_first_wins [of relabel_run "[]" "[]" None]
  have ev: "find (\<lambda>e. input e = js ''hello world'') (events relabel_run) = Some ?R"
    by code_simp
  from th have d: "distinct (map input ?M)" by simp
  from th have first: "find (\<lambda>e. input e = input m) (events relabel_run) = Some m"
    if "m \<in> set ?M" for m using that by simp
  from th have "input ` set (events relabel_run) = input ` set ?M" by simp
  moreover have "js ''hello world'' \<in> input ` set (events relabel_run)"
  proof -
    from ev have "?R \<in> set (events relabel_run)" by (simp add: find_SomeD)
    then have "input ?R \<in> input ` set (events relabel_run)" by (rule imageI)
    then show ?thesis by simp
  qed
  ultimately have "js ''hello world'' \<in> input ` set ?M" by (rule subst)
  then obtain m where m: "m \<in> set ?M" "input m = js ''hello world''"
    unfolding image_iff by metis
  with first[of m] ev have "m = ?R" by simp
  with m have r: "?R \<in> set ?M" by simp
  have s: "?S \<notin> set ?M"
  proof
    assume "?S \<in> set ?M"
    from first[OF this] ev show False by simp
  qed
  from d r s show ?thesis by (intro conjI)
qed

end
